theory Spec2Isabelle
  imports Complex_Main "HOL-Library.Multiset" "HOL-Library.AList"
begin

section \<open>Values of the Python program\<close>

text \<open>
  The rankers of \<^verbatim>\<open>rankers.py\<close> compute with two kinds of numbers. Plain Python
  \<^verbatim>\<open>int\<close> and \<^verbatim>\<open>float\<close> values are modelled by \<open>nat\<close> and \<open>real\<close>; a Python
  division raises \<^verbatim>\<open>ZeroDivisionError\<close> on a zero divisor. Every value that went through
  \<^verbatim>\<open>np.log\<close> or \<^verbatim>\<open>np.mean\<close> is a \<^verbatim>\<open>numpy.float64\<close>: its arithmetic never raises,
  it yields \<^verbatim>\<open>inf\<close>, \<^verbatim>\<open>-inf\<close> or \<^verbatim>\<open>nan\<close> instead. Finite values are exact reals here:
  rounding, overflow and the sign of zero are not modelled (every zero divisor of the
  source is a sum or \<^verbatim>\<open>log(1)\<close>, hence \<^verbatim>\<open>+0.0\<close>).
\<close>

datatype error = ZeroDivisionError | KeyError string | AttributeError | LookupFailure

datatype npfloat = Fin real | PInf | NInf | NaN

definition py_div :: "real \<Rightarrow> real \<Rightarrow> error + real" where
  "py_div a b = (if b = 0 then Inl ZeroDivisionError else Inr (a / b))"

fun np_add :: "npfloat \<Rightarrow> npfloat \<Rightarrow> npfloat" where
  "np_add (Fin x) (Fin y) = Fin (x + y)"
| "np_add NaN _ = NaN"
| "np_add _ NaN = NaN"
| "np_add PInf NInf = NaN"
| "np_add NInf PInf = NaN"
| "np_add PInf _ = PInf"
| "np_add _ PInf = PInf"
| "np_add NInf _ = NInf"
| "np_add _ NInf = NInf"

definition signed_inf :: "bool \<Rightarrow> npfloat" where
  "signed_inf positive = (if positive then PInf else NInf)"

fun np_mul :: "npfloat \<Rightarrow> npfloat \<Rightarrow> npfloat" where
  "np_mul (Fin x) (Fin y) = Fin (x * y)"
| "np_mul NaN _ = NaN"
| "np_mul _ NaN = NaN"
| "np_mul (Fin x) PInf = (if x = 0 then NaN else signed_inf (0 < x))"
| "np_mul (Fin x) NInf = (if x = 0 then NaN else signed_inf (x < 0))"
| "np_mul PInf (Fin y) = (if y = 0 then NaN else signed_inf (0 < y))"
| "np_mul NInf (Fin y) = (if y = 0 then NaN else signed_inf (y < 0))"
| "np_mul PInf PInf = PInf"
| "np_mul NInf NInf = PInf"
| "np_mul PInf NInf = NInf"
| "np_mul NInf PInf = NInf"

fun np_div :: "npfloat \<Rightarrow> npfloat \<Rightarrow> npfloat" where
  "np_div (Fin x) (Fin y) =
     (if y \<noteq> 0 then Fin (x / y)
      else if 0 < x then PInf else if x < 0 then NInf else NaN)"
| "np_div NaN _ = NaN"
| "np_div _ NaN = NaN"
| "np_div (Fin x) PInf = Fin 0"
| "np_div (Fin x) NInf = Fin 0"
| "np_div PInf (Fin y) = signed_inf (0 \<le> y)"
| "np_div NInf (Fin y) = signed_inf (y < 0)"
| "np_div PInf PInf = NaN"
| "np_div PInf NInf = NaN"
| "np_div NInf PInf = NaN"
| "np_div NInf NInf = NaN"

fun np_log :: "npfloat \<Rightarrow> npfloat" where
  "np_log (Fin x) = (if 0 < x then Fin (ln x) else if x = 0 then NInf else NaN)"
| "np_log PInf = PInf"
| "np_log NInf = NaN"
| "np_log NaN = NaN"

definition np_mean :: "nat list \<Rightarrow> npfloat" where
  "np_mean xs = (if xs = [] then NaN else Fin (real (sum_list xs) / real (length xs)))"

fun np_less :: "npfloat \<Rightarrow> npfloat \<Rightarrow> bool" where
  "np_less (Fin x) (Fin y) = (x < y)"
| "np_less NaN _ = False"
| "np_less _ NaN = False"
| "np_less _ NInf = False"
| "np_less PInf _ = False"
| "np_less NInf _ = True"
| "np_less _ PInf = True"

section \<open>The index reader and the ranker objects\<close>

text \<open>
  \<^verbatim>\<open>pyserini.index.IndexReader\<close> is not part of the repository; the rankers use four
  of its methods, which are the fields of \<open>index_reader\<close>. A lookup either returns or
  raises. \<^verbatim>\<open>get_document_vector\<close> returns a dictionary or, for a document it does not
  find, \<^verbatim>\<open>None\<close>: its result is a \<open>doc_vector option\<close>. A document vector and a
  position table are Python dictionaries, written as association lists; a dictionary
  has each key once (\<open>distinct (map fst dv)\<close>). A query is the tokenised list of its
  terms.
\<close>

type_synonym doc_vector = "(string \<times> nat) list"
type_synonym term_positions = "(string \<times> nat list) list"

record index_reader =
  stats_documents :: nat
  stats_total_terms :: nat
  get_document_vector :: "string \<Rightarrow> error + doc_vector option"
  get_term_counts :: "string \<Rightarrow> error + nat \<times> nat"
  get_term_positions :: "string \<Rightarrow> error + term_positions"

text \<open>
  The three ranker classes have the same fields (\<open>n_terms\<close> and \<open>positions_cache\<close>
  exist in \<^verbatim>\<open>CustomRanker\<close> only and are unused by the other two). \<open>docvec_calls\<close> is
  not a field of the source: it records, in order, every document id for which
  \<^verbatim>\<open>index_reader.get_document_vector\<close> was invoked, so that the number of invocations
  can be stated.
\<close>

record ranker =
  index_reader :: index_reader
  n_docs :: nat
  n_terms :: nat
  avg_dl :: real
  docvec_cache :: "string \<rightharpoonup> doc_vector option"
  freq_cache :: "string \<rightharpoonup> nat \<times> nat"
  positions_cache :: "string \<rightharpoonup> term_positions"
  docvec_calls :: "string list"

definition new_ranker :: "index_reader \<Rightarrow> error + ranker" where
  "new_ranker rdr =
     (case py_div (real (stats_total_terms rdr)) (real (stats_documents rdr)) of
        Inl e \<Rightarrow> Inl e
      | Inr a \<Rightarrow>
          Inr \<lparr>index_reader = rdr, n_docs = stats_documents rdr,
               n_terms = stats_total_terms rdr, avg_dl = a,
               docvec_cache = Map.empty, freq_cache = Map.empty,
               positions_cache = Map.empty, docvec_calls = []\<rparr>)"

subsection \<open>The memoised lookups\<close>

text \<open>
  \<^verbatim>\<open>score\<close> stores whatever \<^verbatim>\<open>get_document_vector\<close> returned, \<^verbatim>\<open>None\<close> included,
  before it first uses the value; a lookup that raises stores nothing.
\<close>

definition fetch_docvec :: "ranker \<Rightarrow> string \<Rightarrow> (error + doc_vector option) \<times> ranker" where
  "fetch_docvec r doc_id =
     (case docvec_cache r doc_id of
        Some doc_vector \<Rightarrow> (Inr doc_vector, r)
      | None \<Rightarrow>
          (let r1 = r\<lparr>docvec_calls := docvec_calls r @ [doc_id]\<rparr> in
           case get_document_vector (index_reader r) doc_id of
             Inl e \<Rightarrow> (Inl e, r1)
           | Inr doc_vector \<Rightarrow>
               (Inr doc_vector,
                r1\<lparr>docvec_cache := (docvec_cache r1)(doc_id \<mapsto> doc_vector)\<rparr>)))"

definition fetch_positions :: "ranker \<Rightarrow> string \<Rightarrow> (error + term_positions) \<times> ranker" where
  "fetch_positions r doc_id =
     (case positions_cache r doc_id of
        Some doc_positions \<Rightarrow> (Inr doc_positions, r)
      | None \<Rightarrow>
          (case get_term_positions (index_reader r) doc_id of
             Inl e \<Rightarrow> (Inl e, r)
           | Inr doc_positions \<Rightarrow>
               (Inr doc_positions,
                r\<lparr>positions_cache := (positions_cache r)(doc_id \<mapsto> doc_positions)\<rparr>)))"

definition fetch_term_counts :: "ranker \<Rightarrow> string \<Rightarrow> (error + nat \<times> nat) \<times> ranker" where
  "fetch_term_counts r term =
     (case freq_cache r term of
        Some dfcf \<Rightarrow> (Inr dfcf, r)
      | None \<Rightarrow>
          (case get_term_counts (index_reader r) term of
             Inl e \<Rightarrow> (Inl e, r)
           | Inr dfcf \<Rightarrow> (Inr dfcf, r\<lparr>freq_cache := (freq_cache r)(term \<mapsto> dfcf)\<rparr>)))"

subsection \<open>The parts of \<^verbatim>\<open>score\<close> shared by the three classes\<close>

text \<open>
  \<^verbatim>\<open>set(query).intersection(doc_vector.keys())\<close>: Python leaves the iteration order of
  a set open; the model visits the distinct query terms in the order of \<open>remdups\<close>.
  When \<^verbatim>\<open>doc_vector\<close> is \<^verbatim>\<open>None\<close>, \<^verbatim>\<open>doc_vector.keys()\<close> raises
  \<^verbatim>\<open>AttributeError\<close>; this is the case \<open>Inr None\<close> of the three \<^verbatim>\<open>score\<close> methods.
\<close>

definition doc_query_set :: "string list \<Rightarrow> doc_vector \<Rightarrow> string list" where
  "doc_query_set query doc_vector =
     filter (\<lambda>term. term \<in> set (map fst doc_vector)) (remdups query)"

definition doc_length :: "doc_vector \<Rightarrow> nat" where
  "doc_length doc_vector = sum_list (map snd doc_vector)"

definition dict_get :: "(string \<times> 'v) list \<Rightarrow> string \<Rightarrow> error + 'v" where
  "dict_get d k = (case map_of d k of None \<Rightarrow> Inl (KeyError k) | Some v \<Rightarrow> Inr v)"

text \<open>
  The loop \<^verbatim>\<open>for term in doc_query_set\<close> is the same in the three classes but for
  the formula of \<^verbatim>\<open>term_score\<close>, here the argument \<open>term_score\<close>. The accumulator
  starts as the Python integer 0.
\<close>

fun term_loop ::
  "(string \<Rightarrow> nat \<times> nat \<Rightarrow> error + npfloat) \<Rightarrow> string list \<Rightarrow> npfloat \<Rightarrow> ranker
     \<Rightarrow> (error + npfloat) \<times> ranker" where
  "term_loop term_score [] rank_score r = (Inr rank_score, r)"
| "term_loop term_score (term # terms) rank_score r =
     (case fetch_term_counts r term of
        (Inl e, r') \<Rightarrow> (Inl e, r')
      | (Inr dfcf, r') \<Rightarrow>
          (case term_score term dfcf of
             Inl e \<Rightarrow> (Inl e, r')
           | Inr s \<Rightarrow> term_loop term_score terms (np_add rank_score s) r'))"

section \<open>Pivoted length normalisation\<close>

definition pln_term_score ::
  "nat \<Rightarrow> real \<Rightarrow> real \<Rightarrow> string list \<Rightarrow> doc_vector \<Rightarrow> string \<Rightarrow> nat \<times> nat \<Rightarrow> error + npfloat" where
  "pln_term_score ndocs avgdl b query doc_vector term dfcf =
     (let df = fst dfcf;
          qtf = count_list query term
      in case dict_get doc_vector term of
           Inl e \<Rightarrow> Inl e
         | Inr tf \<Rightarrow>
        (case py_div (b * real (doc_length doc_vector)) avgdl of
           Inl e \<Rightarrow> Inl e
         | Inr len_ratio \<Rightarrow>
        (let norm_tf =
               np_div (np_add (Fin 1) (np_log (np_add (Fin 1) (np_log (Fin (real tf))))))
                      (Fin (1 - b + len_ratio))
         in case py_div (real ndocs + 1) (real df) of
              Inl e \<Rightarrow> Inl e
            | Inr ratio \<Rightarrow>
                (let idf = np_log (Fin ratio)
                 in Inr (np_mul (np_mul (Fin (real qtf)) norm_tf) idf)))))"

definition pln_score :: "ranker \<Rightarrow> string list \<Rightarrow> string \<Rightarrow> real \<Rightarrow> (error + npfloat) \<times> ranker" where
  "pln_score r query doc_id b =
     (case fetch_docvec r doc_id of
        (Inl e, r') \<Rightarrow> (Inl e, r')
      | (Inr None, r') \<Rightarrow> (Inl AttributeError, r')
      | (Inr (Some doc_vector), r') \<Rightarrow>
          term_loop (pln_term_score (n_docs r') (avg_dl r') b query doc_vector)
            (doc_query_set query doc_vector) (Fin 0) r')"

definition pln_default_b :: real where
  "pln_default_b = 0.5"

section \<open>BM25\<close>

text \<open>
  Only \<^verbatim>\<open>idf\<close> goes through \<^verbatim>\<open>np.log\<close>; \<^verbatim>\<open>norm_tf\<close> and \<^verbatim>\<open>norm_qtf\<close> are plain
  Python floats, whose divisions raise on a zero divisor.
\<close>

definition bm25_norm_tf :: "real \<Rightarrow> real \<Rightarrow> real \<Rightarrow> nat \<Rightarrow> nat \<Rightarrow> error + real" where
  "bm25_norm_tf avgdl k1 b dl tf =
     (case py_div (b * real dl) avgdl of
        Inl e \<Rightarrow> Inl e
      | Inr len_ratio \<Rightarrow> py_div ((k1 + 1) * real tf) (k1 * (1 - b + len_ratio) + real tf))"

definition bm25_idf :: "nat \<Rightarrow> nat \<Rightarrow> error + npfloat" where
  "bm25_idf ndocs df =
     (case py_div (real ndocs - real df + 0.5) (real df + 0.5) of
        Inl e \<Rightarrow> Inl e
      | Inr ratio \<Rightarrow> Inr (np_log (Fin ratio)))"

definition bm25_norm_qtf :: "real \<Rightarrow> nat \<Rightarrow> error + real" where
  "bm25_norm_qtf k3 qtf = py_div ((k3 + 1) * real qtf) (k3 + real qtf)"

definition bm25_term_score ::
  "nat \<Rightarrow> real \<Rightarrow> real \<Rightarrow> real \<Rightarrow> real \<Rightarrow> string list \<Rightarrow> doc_vector \<Rightarrow> string \<Rightarrow> nat \<times> nat
     \<Rightarrow> error + npfloat" where
  "bm25_term_score ndocs avgdl k1 b k3 query doc_vector term dfcf =
     (let df = fst dfcf;
          qtf = count_list query term
      in case dict_get doc_vector term of
           Inl e \<Rightarrow> Inl e
         | Inr tf \<Rightarrow>
        (case bm25_idf ndocs df of
           Inl e \<Rightarrow> Inl e
         | Inr idf \<Rightarrow>
        (case bm25_norm_tf avgdl k1 b (doc_length doc_vector) tf of
           Inl e \<Rightarrow> Inl e
         | Inr norm_tf \<Rightarrow>
        (case bm25_norm_qtf k3 qtf of
           Inl e \<Rightarrow> Inl e
         | Inr norm_qtf \<Rightarrow>
             Inr (np_mul (np_mul idf (Fin norm_tf)) (Fin norm_qtf))))))"

definition bm25_score ::
  "ranker \<Rightarrow> string list \<Rightarrow> string \<Rightarrow> real \<Rightarrow> real \<Rightarrow> real \<Rightarrow> (error + npfloat) \<times> ranker" where
  "bm25_score r query doc_id k1 b k3 =
     (case fetch_docvec r doc_id of
        (Inl e, r') \<Rightarrow> (Inl e, r')
      | (Inr None, r') \<Rightarrow> (Inl AttributeError, r')
      | (Inr (Some doc_vector), r') \<Rightarrow>
          term_loop (bm25_term_score (n_docs r') (avg_dl r') k1 b k3 query doc_vector)
            (doc_query_set query doc_vector) (Fin 0) r')"

definition bm25_default_k1 :: real where
  "bm25_default_k1 = 1.2"

definition bm25_default_b :: real where
  "bm25_default_b = 0.3"

definition bm25_default_k3 :: real where
  "bm25_default_k3 = 1.5"

section \<open>The custom ranker\<close>

text \<open>
  \<^verbatim>\<open>{k: v for v, k in enumerate(query)}\<close>: the comprehension stores the pairs from
  left to right, a later pair replacing an earlier one with the same key. In
  \<^verbatim>\<open>term_score\<close>, \<open>custom_tf_part\<close> is \<^verbatim>\<open>np.log(tf) / (qtf * trp_q * trp_d + sm)\<close> and
  \<open>custom_collection_part\<close> is \<^verbatim>\<open>ci * idf + sm\<close>; the product \<^verbatim>\<open>qtf * trp_q\<close> is a
  Python float, every later operation is numpy's.
\<close>

definition query_position :: "string list \<Rightarrow> string \<rightharpoonup> nat" where
  "query_position query = fold (\<lambda>(v, k) m. m(k \<mapsto> v)) (enumerate 0 query) Map.empty"

definition custom_trp_q :: "string list \<Rightarrow> string \<Rightarrow> error + real" where
  "custom_trp_q query term =
     (case query_position query term of
        None \<Rightarrow> Inl (KeyError term)
      | Some i \<Rightarrow> py_div (real i) (real (length query)))"

definition custom_trp_d :: "doc_vector \<Rightarrow> nat list \<Rightarrow> npfloat" where
  "custom_trp_d doc_vector positions =
     np_log (np_div (np_log (Fin (real (doc_length doc_vector) + 1)))
                    (np_log (np_add (np_mean positions) (Fin 1))))"

definition custom_denominator :: "real \<Rightarrow> nat \<Rightarrow> real \<Rightarrow> npfloat \<Rightarrow> npfloat" where
  "custom_denominator sm qtf trp_q trp_d =
     np_add (np_mul (Fin (real qtf * trp_q)) trp_d) (Fin sm)"

definition custom_tf_part :: "real \<Rightarrow> nat \<Rightarrow> nat \<Rightarrow> real \<Rightarrow> npfloat \<Rightarrow> npfloat" where
  "custom_tf_part sm tf qtf trp_q trp_d =
     np_div (np_log (Fin (real tf))) (custom_denominator sm qtf trp_q trp_d)"

definition custom_collection_part :: "real \<Rightarrow> real \<Rightarrow> real \<Rightarrow> npfloat" where
  "custom_collection_part sm cf_share ratio =
     (let ci = cf_share * ratio;
          idf = np_log (Fin ratio)
      in np_add (np_mul (Fin ci) idf) (Fin sm))"

definition custom_term_score ::
  "nat \<Rightarrow> nat \<Rightarrow> real \<Rightarrow> real \<Rightarrow> string list \<Rightarrow> doc_vector \<Rightarrow> term_positions \<Rightarrow> string
     \<Rightarrow> nat \<times> nat \<Rightarrow> error + npfloat" where
  "custom_term_score ndocs nterms lmd sm query doc_vector doc_positions term dfcf =
     (let df = fst dfcf; cf = snd dfcf;
          qtf = count_list query term
      in case dict_get doc_vector term of
           Inl e \<Rightarrow> Inl e
         | Inr tf \<Rightarrow>
        (case custom_trp_q query term of
           Inl e \<Rightarrow> Inl e
         | Inr trp_q \<Rightarrow>
        (case dict_get doc_positions term of
           Inl e \<Rightarrow> Inl e
         | Inr positions \<Rightarrow>
        (let trp_d = custom_trp_d doc_vector positions
         in case py_div (real cf) (real nterms) of
              Inl e \<Rightarrow> Inl e
            | Inr cf_share \<Rightarrow>
           (case py_div (real ndocs) (real df) of
              Inl e \<Rightarrow> Inl e
            | Inr ratio \<Rightarrow>
                Inr (np_add
                  (np_mul (Fin lmd) (custom_tf_part sm tf qtf trp_q trp_d))
                  (np_mul (Fin (1 - lmd)) (custom_collection_part sm cf_share ratio))))))))"

definition custom_score ::
  "ranker \<Rightarrow> string list \<Rightarrow> string \<Rightarrow> real \<Rightarrow> real \<Rightarrow> (error + npfloat) \<times> ranker" where
  "custom_score r query doc_id lmd sm =
     (case fetch_docvec r doc_id of
        (Inl e, r1) \<Rightarrow> (Inl e, r1)
      | (Inr doc_vector, r1) \<Rightarrow>
          (case fetch_positions r1 doc_id of
             (Inl e, r2) \<Rightarrow> (Inl e, r2)
           | (Inr doc_positions, r2) \<Rightarrow>
               (case doc_vector of
                  None \<Rightarrow> (Inl AttributeError, r2)
                | Some dv \<Rightarrow>
                    term_loop
                      (custom_term_score (n_docs r2) (n_terms r2) lmd sm query dv
                         doc_positions)
                      (doc_query_set query dv) (Fin 0) r2)))"

definition custom_default_lmd :: real where
  "custom_default_lmd = 0.6"

definition custom_default_sm :: real where
  "custom_default_sm = 0.2"

section \<open>Evaluating a query (\<^verbatim>\<open>main.py\<close>)\<close>

text \<open>
  \<^verbatim>\<open>rank_query\<close> calls \<^verbatim>\<open>ranker.score(query, str(i))\<close> with the default parameters
  of the class chosen on the command line. Document ids are taken as the strings
  \<^verbatim>\<open>str(i)\<close>.
\<close>

datatype ranker_option = Plnr | Bm25 | Custom

fun score :: "ranker_option \<Rightarrow> ranker \<Rightarrow> string list \<Rightarrow> string \<Rightarrow> (error + npfloat) \<times> ranker" where
  "score Plnr r query doc_id = pln_score r query doc_id pln_default_b"
| "score Bm25 r query doc_id =
     bm25_score r query doc_id bm25_default_k1 bm25_default_b bm25_default_k3"
| "score Custom r query doc_id =
     custom_score r query doc_id custom_default_lmd custom_default_sm"

text \<open>
  \<^verbatim>\<open>doc_score\<close> is a dictionary: assigning to a key that is present keeps the key's
  place, a new key goes last (\<open>AList.update\<close>). The bare \<^verbatim>\<open>except: pass\<close> leaves
  \<^verbatim>\<open>score = 0\<close>; what the failed call stored in the caches stays.
\<close>

fun rank_loop ::
  "('r \<Rightarrow> string list \<Rightarrow> string \<Rightarrow> (error + npfloat) \<times> 'r) \<Rightarrow> string list \<Rightarrow> string list
     \<Rightarrow> (string \<times> npfloat) list \<Rightarrow> 'r \<Rightarrow> (string \<times> npfloat) list \<times> 'r" where
  "rank_loop sc query [] doc_score r = (doc_score, r)"
| "rank_loop sc query (i # doc_list) doc_score r =
     (case sc r query i of
        (Inl e, r') \<Rightarrow> rank_loop sc query doc_list (AList.update i (Fin 0) doc_score) r'
      | (Inr s, r') \<Rightarrow> rank_loop sc query doc_list (AList.update i s doc_score) r')"

definition rank_query ::
  "('r \<Rightarrow> string list \<Rightarrow> string \<Rightarrow> (error + npfloat) \<times> 'r) \<Rightarrow> 'r \<Rightarrow> string list \<Rightarrow> string list
     \<Rightarrow> (string \<times> npfloat) list \<times> 'r" where
  "rank_query sc r query doc_list = rank_loop sc query doc_list [] r"

text \<open>
  \<^verbatim>\<open>sorted(doc_score, key=doc_score.get, reverse=True)\<close>. Python's sort is stable and
  compares keys with \<^verbatim>\<open><\<close> only; with \<^verbatim>\<open>reverse=True\<close> it reverses the list, sorts
  it in ascending order and reverses the result. The ascending sort is written as
  insertion sort; on keys that \<^verbatim>\<open><\<close> orders totally every stable sort returns the same
  list. With a \<^verbatim>\<open>nan\<close> among the keys the result depends on the algorithm, and the list
  of CPython's sort (run detection, then binary insertion) can differ from the one of
  \<open>sort_asc\<close>. The two agree on a list in which no key is less than the key before it:
  CPython takes it as one ascending run and \<open>sort_asc\<close> returns it as it is.
\<close>

fun insert_asc :: "('a \<Rightarrow> npfloat) \<Rightarrow> 'a \<Rightarrow> 'a list \<Rightarrow> 'a list" where
  "insert_asc key x [] = [x]"
| "insert_asc key x (y # ys) =
     (if np_less (key y) (key x) then y # insert_asc key x ys else x # y # ys)"

definition sort_asc :: "('a \<Rightarrow> npfloat) \<Rightarrow> 'a list \<Rightarrow> 'a list" where
  "sort_asc key xs = foldr (insert_asc key) xs []"

definition sorted_reverse :: "('a \<Rightarrow> npfloat) \<Rightarrow> 'a list \<Rightarrow> 'a list" where
  "sorted_reverse key xs = rev (sort_asc key (rev xs))"

definition doc_ranked :: "(string \<times> npfloat) list \<Rightarrow> string list" where
  "doc_ranked doc_score = map fst (sorted_reverse snd doc_score)"

section \<open>Notions used in the statements\<close>

text \<open>
  \<open>np_add\<close> is associative and commutative with unit \<open>Fin 0\<close>, so sums of
  \<open>npfloat\<close> values can be written with \<open>+\<close> and \<open>sum_list\<close>.
\<close>

instantiation npfloat :: comm_monoid_add
begin

definition zero_npfloat :: npfloat where
  "zero_npfloat = Fin 0"

definition plus_npfloat :: "npfloat \<Rightarrow> npfloat \<Rightarrow> npfloat" where
  "plus_npfloat a b = np_add a b"

instance
proof
  fix a b c :: npfloat
  show "a + b + c = a + (b + c)"
    unfolding plus_npfloat_def by (cases a; cases b; cases c) simp_all
  show "a + b = b + a"
    unfolding plus_npfloat_def by (cases a; cases b) simp_all
  show "0 + a = a"
    unfolding plus_npfloat_def zero_npfloat_def by (cases a) simp_all
qed

end

text \<open>
  What one pass of the term loop computes for a term: the statistics come from the
  frequency cache or else from the reader, then the formula is applied.
\<close>

definition term_value ::
  "(string \<Rightarrow> nat \<times> nat \<Rightarrow> error + npfloat) \<Rightarrow> ranker \<Rightarrow> string \<Rightarrow> error + npfloat" where
  "term_value f r t =
     (case fst (fetch_term_counts r t) of Inl e \<Rightarrow> Inl e | Inr dfcf \<Rightarrow> f t dfcf)"

text \<open>
  A ranker instance over a reader, at any moment of a run: the constructor's fields are
  those computed from the reader's statistics, and each cache holds only what the reader
  returned.
\<close>

definition cache_consistent :: "ranker \<Rightarrow> bool" where
  "cache_consistent r \<longleftrightarrow>
     (\<forall>d dv. docvec_cache r d = Some dv \<longrightarrow>
        get_document_vector (index_reader r) d = Inr dv) \<and>
     (\<forall>t p. freq_cache r t = Some p \<longrightarrow> get_term_counts (index_reader r) t = Inr p) \<and>
     (\<forall>d ps. positions_cache r d = Some ps \<longrightarrow>
        get_term_positions (index_reader r) d = Inr ps)"

definition ranker_of :: "index_reader \<Rightarrow> ranker \<Rightarrow> bool" where
  "ranker_of rdr r \<longleftrightarrow>
     index_reader r = rdr \<and> stats_documents rdr \<noteq> 0 \<and>
     n_docs r = stats_documents rdr \<and> n_terms r = stats_total_terms rdr \<and>
     avg_dl r = real (stats_total_terms rdr) / real (stats_documents rdr) \<and>
     cache_consistent r"

text \<open>
  A document vector as the index stores it: a dictionary (each term once) of positive
  term frequencies.
\<close>

definition document_vector_ok :: "doc_vector \<Rightarrow> bool" where
  "document_vector_ok dv \<longleftrightarrow> distinct (map fst dv) \<and> (\<forall>c\<in>snd ` set dv. 1 \<le> c)"

definition term_frequency :: "doc_vector \<Rightarrow> string \<Rightarrow> nat" where
  "term_frequency dv t = (case map_of dv t of Some c \<Rightarrow> c | None \<Rightarrow> 0)"

definition document_frequency :: "index_reader \<Rightarrow> string \<Rightarrow> nat" where
  "document_frequency rdr t = (case get_term_counts rdr t of Inr dfcf \<Rightarrow> fst dfcf | Inl e \<Rightarrow> 0)"

text \<open>
  The specification's formulas for the per-term contributions, over the reals.
\<close>

definition spec_pln_contribution ::
  "real \<Rightarrow> index_reader \<Rightarrow> string list \<Rightarrow> doc_vector \<Rightarrow> string \<Rightarrow> real" where
  "spec_pln_contribution b rdr query dv t =
     (let query_term_freq = real (count_list query t);
          doc_term_freq = real (term_frequency dv t);
          doc_length = real (sum_list (map snd dv));
          document_count = real (stats_documents rdr);
          average_document_length = real (stats_total_terms rdr) / document_count;
          norm_tf = (1 + ln (1 + ln doc_term_freq))
                      / (1 - b + b * doc_length / average_document_length);
          idf = ln ((document_count + 1) / real (document_frequency rdr t))
      in query_term_freq * norm_tf * idf)"

definition spec_bm25_contribution ::
  "real \<Rightarrow> real \<Rightarrow> real \<Rightarrow> index_reader \<Rightarrow> string list \<Rightarrow> doc_vector \<Rightarrow> string \<Rightarrow> real" where
  "spec_bm25_contribution k1 b k3 rdr query dv t =
     (let query_term_freq = real (count_list query t);
          doc_term_freq = real (term_frequency dv t);
          doc_length = real (sum_list (map snd dv));
          document_count = real (stats_documents rdr);
          document_frequency = real (document_frequency rdr t);
          average_document_length = real (stats_total_terms rdr) / document_count;
          idf = ln ((document_count - document_frequency + 0.5) / (document_frequency + 0.5));
          norm_tf = (k1 + 1) * doc_term_freq
                      / (k1 * (1 - b + b * doc_length / average_document_length) + doc_term_freq);
          norm_qtf = (k3 + 1) * query_term_freq / (k3 + query_term_freq)
      in idf * norm_tf * norm_qtf)"

text \<open>
  The specification's reading of the query-position map: the index at which a term first
  occurs in the query.
\<close>

definition spec_first_index :: "string list \<Rightarrow> string \<Rightarrow> nat" where
  "spec_first_index query t = length (takeWhile (\<lambda>x. x \<noteq> t) query)"

text \<open>
  A run on one ranker instance: \<^verbatim>\<open>score\<close> is called for each pair of a query and a
  document id in turn, an exception of one call not stopping the next (as under
  \<^verbatim>\<open>rank_query\<close>).
\<close>

fun score_calls :: "ranker_option \<Rightarrow> ranker \<Rightarrow> (string list \<times> string) list \<Rightarrow> ranker" where
  "score_calls opt r [] = r"
| "score_calls opt r ((query, doc_id) # calls) =
     score_calls opt (snd (score opt r query doc_id)) calls"

section \<open>Two small indexes\<close>

text \<open>
  The scenario of the specification: three documents, thirty terms in all, document
  \<open>A\<close> with the vector \<open>{fox: 2, dog: 1}\<close>, and \<open>fox\<close> in two documents. Any other
  document id is absent from the index: \<^verbatim>\<open>get_document_vector\<close> returns \<^verbatim>\<open>None\<close> for
  it. The other lookups raise for what the index does not hold.
\<close>

definition scenario_reader :: index_reader where
  "scenario_reader =
     \<lparr>stats_documents = 3, stats_total_terms = 30,
      get_document_vector =
        (\<lambda>d. if d = ''A'' then Inr (Some [(''fox'', 2), (''dog'', 1)]) else Inr None),
      get_term_counts =
        (\<lambda>t. if t = ''fox'' then Inr (2, 4) else if t = ''dog'' then Inr (1, 1)
             else Inl LookupFailure),
      get_term_positions =
        (\<lambda>d. if d = ''A'' then Inr [(''fox'', [0, 2]), (''dog'', [1])]
             else Inl LookupFailure)\<rparr>"

definition scenario_ranker :: ranker where
  "scenario_ranker =
     \<lparr>index_reader = scenario_reader, n_docs = 3, n_terms = 30, avg_dl = 10,
      docvec_cache = Map.empty, freq_cache = Map.empty, positions_cache = Map.empty,
      docvec_calls = []\<rparr>"



text \<open>
  An index of three documents: \<open>d1\<close> is the token sequence \<open>x fox\<close>, \<open>d2\<close> is \<open>fox\<close>
  and \<open>d3\<close> is \<open>x fox fox\<close> (positions count from 0).
\<close>

definition fox_reader :: index_reader where
  "fox_reader =
     \<lparr>stats_documents = 3, stats_total_terms = 6,
      get_document_vector =
        (\<lambda>d. if d = ''d1'' then Inr (Some [(''x'', 1), (''fox'', 1)])
             else if d = ''d2'' then Inr (Some [(''fox'', 1)])
             else if d = ''d3'' then Inr (Some [(''x'', 1), (''fox'', 2)])
             else Inr None),
      get_term_counts =
        (\<lambda>t. if t = ''fox'' then Inr (3, 4) else if t = ''x'' then Inr (2, 2)
             else Inl LookupFailure),
      get_term_positions =
        (\<lambda>d. if d = ''d1'' then Inr [(''x'', [0]), (''fox'', [1])]
             else if d = ''d2'' then Inr [(''fox'', [0])]
             else if d = ''d3'' then Inr [(''x'', [0]), (''fox'', [1, 2])]
             else Inl LookupFailure)\<rparr>"

definition fox_ranker :: ranker where
  "fox_ranker =
     \<lparr>index_reader = fox_reader, n_docs = 3, n_terms = 6, avg_dl = 2,
      docvec_cache = Map.empty, freq_cache = Map.empty, positions_cache = Map.empty,
      docvec_calls = []\<rparr>"

section \<open>Properties of the shared parts\<close>

lemma sum_list_Fin: "sum_list (map Fin xs) = Fin (sum_list xs)"
  by (induction xs) (simp_all add: zero_npfloat_def plus_npfloat_def)

lemma fetch_term_counts_frame:
  "\<exists>fc. snd (fetch_term_counts r t) = r\<lparr>freq_cache := fc\<rparr>"
  unfolding fetch_term_counts_def
  by (auto split: option.splits sum.splits intro: exI[of _ "freq_cache r"])

lemma fetch_term_counts_stable:
  "fst (fetch_term_counts (snd (fetch_term_counts r t)) t') = fst (fetch_term_counts r t')"
  unfolding fetch_term_counts_def
  by (auto split: option.splits sum.splits)

lemma term_value_stable:
  "term_value f (snd (fetch_term_counts r t)) t' = term_value f r t'"
  by (simp add: term_value_def fetch_term_counts_stable)

text \<open>
  The loop returns exactly when every term's pass returns, and then it returns the
  accumulator plus the sum of the terms' scores.
\<close>

lemma term_loop_Inr_iff:
  "fst (term_loop f ts acc r) = Inr v \<longleftrightarrow>
     (\<forall>t\<in>set ts. \<not> isl (term_value f r t)) \<and>
     v = acc + sum_list (map (\<lambda>t. projr (term_value f r t)) ts)"
proof (induction ts arbitrary: acc r)
  case Nil
  then show ?case by auto
next
  case (Cons t ts)
  obtain res r' where f: "fetch_term_counts r t = (res, r')"
    by (cases "fetch_term_counts r t")
  have st: "\<And>t'. term_value f r' t' = term_value f r t'"
    using term_value_stable[of f r t] f by simp
  show ?case
  proof (cases res)
    case (Inl e)
    then show ?thesis using f by (simp add: term_value_def)
  next
    case (Inr dfcf)
    show ?thesis
    proof (cases "f t dfcf")
      case (Inl e)
      then show ?thesis using f Inr by (simp add: term_value_def)
    next
      case (Inr s)
      have tv: "term_value f r t = Inr s"
        using f \<open>res = Inr dfcf\<close> Inr by (simp add: term_value_def)
      show ?thesis
        using f \<open>res = Inr dfcf\<close> Inr Cons.IH[of "np_add acc s" r'] tv
        by (simp add: st plus_npfloat_def[symmetric] add.assoc)
    qed
  qed
qed

lemma term_loop_frame:
  "\<exists>fc. snd (term_loop f ts acc r) = r\<lparr>freq_cache := fc\<rparr>"
proof (induction ts arbitrary: acc r)
  case Nil
  show ?case by (auto intro: exI[of _ "freq_cache r"])
next
  case (Cons t ts)
  obtain res r' where f: "fetch_term_counts r t = (res, r')"
    by (cases "fetch_term_counts r t")
  obtain fc where r': "r' = r\<lparr>freq_cache := fc\<rparr>"
    using fetch_term_counts_frame[of r t] f by auto
  show ?case
  proof (cases res)
    case (Inl e)
    then show ?thesis using f r' by auto
  next
    case (Inr dfcf)
    show ?thesis
    proof (cases "f t dfcf")
      case (Inl e)
      then show ?thesis using f r' Inr by auto
    next
      case (Inr s)
      obtain fc2 where "snd (term_loop f ts (np_add acc s) r') = r'\<lparr>freq_cache := fc2\<rparr>"
        using Cons.IH by blast
      then show ?thesis using f r' Inr \<open>res = Inr dfcf\<close> by auto
    qed
  qed
qed

lemma doc_query_set_set: "set (doc_query_set q dv) = set q \<inter> fst ` set dv"
  by (auto simp: doc_query_set_def)

lemma doc_query_set_distinct: "distinct (doc_query_set q dv)"
  by (simp add: doc_query_set_def)

lemma fetch_docvec_frame:
  "index_reader (snd (fetch_docvec r d)) = index_reader r \<and>
   n_docs (snd (fetch_docvec r d)) = n_docs r \<and>
   n_terms (snd (fetch_docvec r d)) = n_terms r \<and>
   avg_dl (snd (fetch_docvec r d)) = avg_dl r \<and>
   freq_cache (snd (fetch_docvec r d)) = freq_cache r \<and>
   positions_cache (snd (fetch_docvec r d)) = positions_cache r"
  by (auto simp: fetch_docvec_def Let_def split: option.splits sum.splits)

lemma fetch_docvec_consistent:
  assumes "cache_consistent r"
  shows "fst (fetch_docvec r d) = get_document_vector (index_reader r) d"
    and "cache_consistent (snd (fetch_docvec r d))"
  using assms
  by (auto simp: fetch_docvec_def cache_consistent_def Let_def split: option.splits sum.splits)

lemma fetch_positions_consistent:
  assumes "cache_consistent r"
  shows "fst (fetch_positions r d) = get_term_positions (index_reader r) d"
    and "cache_consistent (snd (fetch_positions r d))"
  using assms
  by (auto simp: fetch_positions_def cache_consistent_def split: option.splits sum.splits)

lemma fetch_term_counts_consistent:
  assumes "cache_consistent r"
  shows "fst (fetch_term_counts r t) = get_term_counts (index_reader r) t"
    and "cache_consistent (snd (fetch_term_counts r t))"
  using assms
  by (auto simp: fetch_term_counts_def cache_consistent_def split: option.splits sum.splits)

lemma term_value_consistent:
  "cache_consistent r \<Longrightarrow>
   term_value f r t = (case get_term_counts (index_reader r) t of Inl e \<Rightarrow> Inl e | Inr p \<Rightarrow> f t p)"
  by (simp add: term_value_def fetch_term_counts_consistent)

lemma fetch_docvec_ranker_of:
  "ranker_of rdr r \<Longrightarrow> ranker_of rdr (snd (fetch_docvec r d))"
  using fetch_docvec_frame[of r d] fetch_docvec_consistent(2)[of r d]
  by (simp add: ranker_of_def)

lemma map_of_le_doc_length:
  "map_of dv t = Some c \<Longrightarrow> c \<le> doc_length dv"
  unfolding doc_length_def
  by (induction dv) (auto split: if_splits)

lemma document_vector_ok_lookup:
  assumes "document_vector_ok dv" "t \<in> fst ` set dv"
  shows "\<exists>c. map_of dv t = Some c \<and> 1 \<le> c \<and> c \<le> doc_length dv"
proof -
  obtain c where c: "map_of dv t = Some c"
    using assms(2) by (metis domD dom_map_of_conv_image_fst)
  then have "(t, c) \<in> set dv" by (rule map_of_SomeD)
  then have "1 \<le> c" using assms(1) by (force simp: document_vector_ok_def)
  then show ?thesis using c map_of_le_doc_length by blast
qed

text \<open>The length-normalisation divisor is positive for a document that has a term.\<close>

lemma length_norm_pos:
  fixes b avgdl :: real
  assumes "0 \<le> b" "b \<le> 1" "0 < avgdl" "1 \<le> dl"
  shows "0 < 1 - b + b * real dl / avgdl"
proof (cases "b = 1")
  case True
  then show ?thesis using assms by simp
next
  case False
  then have "0 < 1 - b" using assms by simp
  moreover have "0 \<le> b * real dl / avgdl" using assms by simp
  ultimately show ?thesis by linarith
qed

lemma pln_term_score_Fin:
  assumes "map_of dv t = Some tf" "1 \<le> tf" "1 \<le> df"
    and "0 \<le> b" "b \<le> 1" "0 < avgdl"
  shows "pln_term_score ndocs avgdl b query dv t (df, cf) =
     Inr (Fin (real (count_list query t)
         * ((1 + ln (1 + ln (real tf))) / (1 - b + b * real (doc_length dv) / avgdl))
         * ln ((real ndocs + 1) / real df)))"
proof -
  have dl: "1 \<le> doc_length dv"
    using map_of_le_doc_length[OF assms(1)] assms(2) by linarith
  have den: "0 < 1 - b + b * real (doc_length dv) / avgdl"
    using length_norm_pos[OF assms(4,5,6) dl] .
  have l1: "0 \<le> ln (real tf)" using assms(2) by simp
  then have l2: "0 < 1 + ln (real tf)" by linarith
  have r: "0 < (real ndocs + 1) / real df" using assms(3) by simp
  show ?thesis
    using assms den l2 r
    by (simp add: pln_term_score_def dict_get_def py_div_def Let_def)
qed


lemma term_loop_Fin_sum:
  assumes "\<And>t. t \<in> set ts \<Longrightarrow> term_value f r t = Inr (Fin (c t))"
    and "distinct ts"
  shows "fst (term_loop f ts (Fin 0) r) = Inr (Fin (sum c (set ts)))"
proof -
  have m: "map (\<lambda>t. projr (term_value f r t)) ts = map Fin (map c ts)"
    using assms(1) by simp
  have "Fin 0 + sum_list (map (\<lambda>t. projr (term_value f r t)) ts) = Fin (sum_list (map c ts))"
    unfolding m sum_list_Fin by (simp add: zero_npfloat_def[symmetric])
  also have "sum_list (map c ts) = sum c (set ts)"
    using assms(2) by (simp add: sum_list_distinct_conv_sum_set)
  finally show ?thesis
    using assms(1) by (simp add: term_loop_Inr_iff)
qed

text \<open>
  C2: for a ranker instance over an index whose statistics are well formed (at least one
  term in the collection, positive term frequencies, document frequencies of at least 1,
  lookups that return), the pivoted-length-normalisation score of a document is the sum,
  over the terms shared by the query and the document vector, of
  \<open>query_term_freq * norm_tf * idf\<close> as the specification writes them; \<open>b\<close> is 0.5
  when \<^verbatim>\<open>score\<close> is called without it.
\<close>

theorem pln_score_formula:
  assumes "ranker_of rdr r"
    and "get_document_vector rdr doc_id = Inr (Some dv)"
    and "document_vector_ok dv"
    and "\<forall>t\<in>set query \<inter> fst ` set dv. \<exists>df cf. get_term_counts rdr t = Inr (df, cf) \<and> 1 \<le> df"
    and "0 < stats_total_terms rdr"
    and "0 \<le> b" and "b \<le> 1"
  shows "fst (pln_score r query doc_id b) =
           Inr (Fin (\<Sum>t\<in>set query \<inter> fst ` set dv. spec_pln_contribution b rdr query dv t)) \<and>
         score Plnr r query doc_id = pln_score r query doc_id 0.5"
proof -
  define r1 where "r1 = snd (fetch_docvec r doc_id)"
  have ro: "ranker_of rdr r1"
    unfolding r1_def using assms(1) by (rule fetch_docvec_ranker_of)
  have cc: "cache_consistent r" and ir: "index_reader r = rdr"
    using assms(1) by (simp_all add: ranker_of_def)
  have f: "fetch_docvec r doc_id = (Inr (Some dv), r1)"
    using fetch_docvec_consistent(1)[OF cc, of doc_id] assms(2) ir
    by (cases "fetch_docvec r doc_id") (simp add: r1_def)
  have avg: "0 < avg_dl r1"
    using ro assms(5) by (simp add: ranker_of_def)
  have tv: "term_value (pln_term_score (n_docs r1) (avg_dl r1) b query dv) r1 t =
              Inr (Fin (spec_pln_contribution b rdr query dv t))"
    if t: "t \<in> set (doc_query_set query dv)" for t
  proof -
    have t': "t \<in> set query \<inter> fst ` set dv" using t by (simp add: doc_query_set_set)
    obtain df cf where d: "get_term_counts rdr t = Inr (df, cf)" "1 \<le> df"
      using assms(4) t' by blast
    obtain tf where c: "map_of dv t = Some tf" "1 \<le> tf"
      using document_vector_ok_lookup[OF assms(3), of t] t' by auto
    have "term_value (pln_term_score (n_docs r1) (avg_dl r1) b query dv) r1 t =
            pln_term_score (n_docs r1) (avg_dl r1) b query dv t (df, cf)"
      using ro d by (simp add: term_value_consistent ranker_of_def)
    also have "\<dots> = Inr (Fin (real (count_list query t)
         * ((1 + ln (1 + ln (real tf))) / (1 - b + b * real (doc_length dv) / avg_dl r1))
         * ln ((real (n_docs r1) + 1) / real df)))"
      using c d(2) assms(6,7) avg by (rule pln_term_score_Fin)
    also have "\<dots> = Inr (Fin (spec_pln_contribution b rdr query dv t))"
      using ro c d
      by (simp add: spec_pln_contribution_def term_frequency_def document_frequency_def
          doc_length_def ranker_of_def Let_def)
    finally show ?thesis .
  qed
  have "fst (term_loop (pln_term_score (n_docs r1) (avg_dl r1) b query dv)
          (doc_query_set query dv) (Fin 0) r1) =
        Inr (Fin (sum (spec_pln_contribution b rdr query dv) (set (doc_query_set query dv))))"
    using tv doc_query_set_distinct by (rule term_loop_Fin_sum)
  then show ?thesis
    by (simp add: pln_score_def f doc_query_set_set pln_default_b_def)
qed


lemma bm25_term_score_Fin:
  assumes "map_of dv t = Some tf" "1 \<le> tf" "df \<le> ndocs" "t \<in> set query"
    and "0 \<le> k1" "0 \<le> b" "b \<le> 1" "0 \<le> k3" "0 < avgdl"
  shows "bm25_term_score ndocs avgdl k1 b k3 query dv t (df, cf) =
     Inr (Fin (ln ((real ndocs - real df + 0.5) / (real df + 0.5))
         * ((k1 + 1) * real tf / (k1 * (1 - b + b * real (doc_length dv) / avgdl) + real tf))
         * ((k3 + 1) * real (count_list query t) / (k3 + real (count_list query t)))))"
proof -
  have dl: "1 \<le> doc_length dv"
    using map_of_le_doc_length[OF assms(1)] assms(2) by linarith
  have "0 < 1 - b + b * real (doc_length dv) / avgdl"
    using length_norm_pos[OF assms(6,7,9) dl] .
  then have "0 \<le> k1 * (1 - b + b * real (doc_length dv) / avgdl)"
    using assms(5) by simp
  then have den: "k1 * (1 - b + b * real (doc_length dv) / avgdl) + real tf \<noteq> 0"
    using assms(2) by linarith
  have "1 \<le> count_list query t"
    using assms(4) count_list_0_iff[of query t] by (cases "count_list query t") simp_all
  then have q: "k3 + real (count_list query t) \<noteq> 0"
    using assms(8) by linarith
  have "0 < real ndocs - real df + 0.5" using assms(3) by simp
  then have r: "0 < (real ndocs - real df + 0.5) / (real df + 0.5)"
    by (simp add: add_pos_nonneg)
  have a: "avgdl \<noteq> 0" using assms(9) by simp
  have i: "bm25_idf ndocs df =
      Inr (Fin (ln ((real ndocs - real df + 0.5) / (real df + 0.5))))"
    using r by (simp add: bm25_idf_def py_div_def add_nonneg_eq_0_iff)
  have n: "bm25_norm_tf avgdl k1 b (doc_length dv) tf =
      Inr ((k1 + 1) * real tf / (k1 * (1 - b + b * real (doc_length dv) / avgdl) + real tf))"
    using den a by (simp add: bm25_norm_tf_def py_div_def)
  have k: "bm25_norm_qtf k3 (count_list query t) =
      Inr ((k3 + 1) * real (count_list query t) / (k3 + real (count_list query t)))"
    using q by (simp add: bm25_norm_qtf_def py_div_def)
  show ?thesis
    by (simp add: bm25_term_score_def dict_get_def assms(1) i n k)
qed

text \<open>
  C3: under the same conditions on the index (document frequencies at most the document
  count), the BM25 score is the sum over the shared terms of \<open>idf * norm_tf * norm_qtf\<close>
  as the specification writes them, the logarithm of \<open>idf\<close> taken as it is (no clamping
  of negative values); the defaults are \<open>k1 = 1.2\<close>, \<open>b = 0.3\<close>, \<open>k3 = 1.5\<close>.
\<close>

theorem bm25_score_formula:
  assumes "ranker_of rdr r"
    and "get_document_vector rdr doc_id = Inr (Some dv)"
    and "document_vector_ok dv"
    and "\<forall>t\<in>set query \<inter> fst ` set dv.
           \<exists>df cf. get_term_counts rdr t = Inr (df, cf) \<and> df \<le> stats_documents rdr"
    and "0 < stats_total_terms rdr"
    and "0 \<le> k1" and "0 \<le> b" and "b \<le> 1" and "0 \<le> k3"
  shows "fst (bm25_score r query doc_id k1 b k3) =
           Inr (Fin (\<Sum>t\<in>set query \<inter> fst ` set dv. spec_bm25_contribution k1 b k3 rdr query dv t)) \<and>
         score Bm25 r query doc_id = bm25_score r query doc_id 1.2 0.3 1.5"
proof -
  define r1 where "r1 = snd (fetch_docvec r doc_id)"
  have ro: "ranker_of rdr r1"
    unfolding r1_def using assms(1) by (rule fetch_docvec_ranker_of)
  have cc: "cache_consistent r" and ir: "index_reader r = rdr"
    using assms(1) by (simp_all add: ranker_of_def)
  have f: "fetch_docvec r doc_id = (Inr (Some dv), r1)"
    using fetch_docvec_consistent(1)[OF cc, of doc_id] assms(2) ir
    by (cases "fetch_docvec r doc_id") (simp add: r1_def)
  have avg: "0 < avg_dl r1"
    using ro assms(5) by (simp add: ranker_of_def)
  have tv: "term_value (bm25_term_score (n_docs r1) (avg_dl r1) k1 b k3 query dv) r1 t =
              Inr (Fin (spec_bm25_contribution k1 b k3 rdr query dv t))"
    if t: "t \<in> set (doc_query_set query dv)" for t
  proof -
    have t': "t \<in> set query \<inter> fst ` set dv" using t by (simp add: doc_query_set_set)
    then have tq: "t \<in> set query" by simp
    have nd: "n_docs r1 = stats_documents rdr" using ro by (simp add: ranker_of_def)
    obtain df cf where d: "get_term_counts rdr t = Inr (df, cf)" "df \<le> n_docs r1"
      unfolding nd using assms(4) t' by blast
    obtain tf where c: "map_of dv t = Some tf" "1 \<le> tf"
      using document_vector_ok_lookup[OF assms(3), of t] t' by auto
    have "term_value (bm25_term_score (n_docs r1) (avg_dl r1) k1 b k3 query dv) r1 t =
            bm25_term_score (n_docs r1) (avg_dl r1) k1 b k3 query dv t (df, cf)"
      using ro d by (simp add: term_value_consistent ranker_of_def)
    also have "\<dots> = Inr (Fin (ln ((real (n_docs r1) - real df + 0.5) / (real df + 0.5))
         * ((k1 + 1) * real tf / (k1 * (1 - b + b * real (doc_length dv) / avg_dl r1) + real tf))
         * ((k3 + 1) * real (count_list query t) / (k3 + real (count_list query t)))))"
      using c d(2) tq assms(6,7,8,9) avg by (rule bm25_term_score_Fin)
    also have "\<dots> = Inr (Fin (spec_bm25_contribution k1 b k3 rdr query dv t))"
      using ro c d
      by (simp add: spec_bm25_contribution_def term_frequency_def document_frequency_def
          doc_length_def ranker_of_def Let_def)
    finally show ?thesis .
  qed
  have "fst (term_loop (bm25_term_score (n_docs r1) (avg_dl r1) k1 b k3 query dv)
          (doc_query_set query dv) (Fin 0) r1) =
        Inr (Fin (sum (spec_bm25_contribution k1 b k3 rdr query dv) (set (doc_query_set query dv))))"
    using tv doc_query_set_distinct by (rule term_loop_Fin_sum)
  then show ?thesis
    by (simp add: bm25_score_def f doc_query_set_set bm25_default_k1_def bm25_default_b_def
        bm25_default_k3_def)
qed


lemma new_scenario_ranker: "new_ranker scenario_reader = Inr scenario_ranker"
  by (simp add: new_ranker_def scenario_reader_def scenario_ranker_def py_div_def)


lemma new_fox_ranker: "new_ranker fox_reader = Inr fox_ranker"
  by (simp add: new_ranker_def fox_reader_def fox_ranker_def py_div_def)

lemma new_ranker_of: "new_ranker rdr = Inr r \<Longrightarrow> ranker_of rdr r"
  by (auto simp: new_ranker_def py_div_def ranker_of_def cache_consistent_def
      split: if_splits)


subsection \<open>The ranker invariant along a run\<close>

lemma fetch_term_counts_ranker_of:
  assumes "ranker_of rdr r"
  shows "ranker_of rdr (snd (fetch_term_counts r t))"
proof -
  obtain fc where "snd (fetch_term_counts r t) = r\<lparr>freq_cache := fc\<rparr>"
    using fetch_term_counts_frame by blast
  then show ?thesis
    using assms fetch_term_counts_consistent(2)[of r t] by (simp add: ranker_of_def)
qed

lemma term_loop_ranker_of:
  "ranker_of rdr r \<Longrightarrow> ranker_of rdr (snd (term_loop f ts acc r))"
proof (induction ts arbitrary: acc r)
  case Nil
  then show ?case by simp
next
  case (Cons t ts)
  obtain res r' where f: "fetch_term_counts r t = (res, r')"
    by (cases "fetch_term_counts r t")
  have r': "ranker_of rdr r'"
    using fetch_term_counts_ranker_of[OF Cons.prems, of t] f by simp
  show ?case
  proof (cases res)
    case (Inl e)
    then show ?thesis using f r' by simp
  next
    case (Inr dfcf)
    then show ?thesis
      using f r' Cons.IH[OF r'] by (cases "f t dfcf") simp_all
  qed
qed

lemma fetch_positions_ranker_of:
  assumes "ranker_of rdr r"
  shows "ranker_of rdr (snd (fetch_positions r d))"
proof -
  have "n_docs (snd (fetch_positions r d)) = n_docs r \<and>
      n_terms (snd (fetch_positions r d)) = n_terms r \<and>
      avg_dl (snd (fetch_positions r d)) = avg_dl r \<and>
      index_reader (snd (fetch_positions r d)) = index_reader r"
    by (auto simp: fetch_positions_def split: option.splits sum.splits)
  then show ?thesis
    using assms fetch_positions_consistent(2)[of r d] by (simp add: ranker_of_def)
qed

text \<open>
  The constructor establishes \<open>ranker_of\<close> and every \<^verbatim>\<open>score\<close> call keeps it, whether
  it returns or raises.
\<close>

lemma score_ranker_of:
  assumes "ranker_of rdr r"
  shows "ranker_of rdr (snd (score opt r q d))"
proof -
  obtain res r1 where f: "fetch_docvec r d = (res, r1)" by (cases "fetch_docvec r d")
  have r1: "ranker_of rdr r1"
    using fetch_docvec_ranker_of[OF assms, of d] f by simp
  show ?thesis
  proof (cases res)
    case (Inl e)
    then show ?thesis
      using f r1 by (cases opt) (simp_all add: pln_score_def bm25_score_def custom_score_def)
  next
    case (Inr dvo)
    obtain res2 r2 where p: "fetch_positions r1 d = (res2, r2)"
      by (cases "fetch_positions r1 d")
    have r2: "ranker_of rdr r2"
      using fetch_positions_ranker_of[OF r1, of d] p by simp
    show ?thesis
    proof (cases opt)
      case Plnr
      then show ?thesis
        using f Inr r1 by (cases dvo) (simp_all add: pln_score_def term_loop_ranker_of)
    next
      case Bm25
      then show ?thesis
        using f Inr r1 by (cases dvo) (simp_all add: bm25_score_def term_loop_ranker_of)
    next
      case Custom
      then show ?thesis
        using f Inr p r2
        by (cases res2; cases dvo) (simp_all add: custom_score_def term_loop_ranker_of)
    qed
  qed
qed

lemma score_calls_ranker_of:
  "ranker_of rdr r \<Longrightarrow> ranker_of rdr (score_calls opt r calls)"
proof (induction calls arbitrary: r)
  case Nil
  then show ?case by simp
next
  case (Cons c calls)
  obtain q d where c: "c = (q, d)" by (cases c)
  show ?case
    unfolding c score_calls.simps
    using Cons.prems by (intro Cons.IH score_ranker_of)
qed


section \<open>The scores on the scenario index\<close>

lemma scenario_ranker_of: "ranker_of scenario_reader scenario_ranker"
  using new_scenario_ranker by (rule new_ranker_of)

lemma scenario_inter:
  "set [''fox'', ''fox'', ''cat''] \<inter> fst ` set [(''fox'', 2::nat), (''dog'', 1)] = {''fox''}"
  by auto

theorem pln_score_formula_witness:
  "fst (pln_score scenario_ranker [''fox'', ''fox'', ''cat''] ''A'' 0.5) =
     Inr (Fin (2 * ((1 + ln (1 + ln 2)) / (1 - 0.5 + 0.5 * 3 / 10)) * ln (4 / 2))) \<and>
   score Plnr scenario_ranker [''fox'', ''fox'', ''cat''] ''A'' =
     pln_score scenario_ranker [''fox'', ''fox'', ''cat''] ''A'' 0.5"
proof -
  have h2: "get_document_vector scenario_reader ''A'' = Inr (Some [(''fox'', 2), (''dog'', 1)])"
    by (simp add: scenario_reader_def)
  have h3: "document_vector_ok [(''fox'', 2), (''dog'', 1)]"
    by (simp add: document_vector_ok_def)
  have h4: "\<forall>t\<in>set [''fox'', ''fox'', ''cat''] \<inter> fst ` set [(''fox'', 2::nat), (''dog'', 1)].
      \<exists>df cf. get_term_counts scenario_reader t = Inr (df, cf) \<and> 1 \<le> df"
    unfolding scenario_inter by (simp add: scenario_reader_def)
  have h5: "0 < stats_total_terms scenario_reader"
    by (simp add: scenario_reader_def)
  show ?thesis
    using pln_score_formula[OF scenario_ranker_of h2 h3 h4 h5, of "0.5"]
    unfolding scenario_inter
    by (simp add: spec_pln_contribution_def term_frequency_def document_frequency_def
        scenario_reader_def)
qed

theorem bm25_score_formula_witness:
  "fst (bm25_score scenario_ranker [''fox'', ''fox'', ''cat''] ''A'' 1.2 0.3 1.5) =
     Inr (Fin (ln (1.5 / 2.5) * (2.2 * 2 / (1.2 * (1 - 0.3 + 0.3 * 3 / 10) + 2))
                 * (2.5 * 2 / (1.5 + 2)))) \<and>
   ln (1.5 / 2.5 :: real) < 0 \<and>
   score Bm25 scenario_ranker [''fox'', ''fox'', ''cat''] ''A'' =
     bm25_score scenario_ranker [''fox'', ''fox'', ''cat''] ''A'' 1.2 0.3 1.5"
proof -
  have h2: "get_document_vector scenario_reader ''A'' = Inr (Some [(''fox'', 2), (''dog'', 1)])"
    by (simp add: scenario_reader_def)
  have h3: "document_vector_ok [(''fox'', 2), (''dog'', 1)]"
    by (simp add: document_vector_ok_def)
  have h4: "\<forall>t\<in>set [''fox'', ''fox'', ''cat''] \<inter> fst ` set [(''fox'', 2::nat), (''dog'', 1)].
      \<exists>df cf. get_term_counts scenario_reader t = Inr (df, cf) \<and> df \<le> stats_documents scenario_reader"
    unfolding scenario_inter by (simp add: scenario_reader_def)
  have h5: "0 < stats_total_terms scenario_reader"
    by (simp add: scenario_reader_def)
  have n: "ln (1.5 / 2.5 :: real) < 0" by simp
  show ?thesis
    using bm25_score_formula[OF scenario_ranker_of h2 h3 h4 h5, of "1.2" "0.3" "1.5"] n
    unfolding scenario_inter
    by (simp add: spec_bm25_contribution_def term_frequency_def document_frequency_def
        scenario_reader_def)
qed


section \<open>No shared vocabulary\<close>

text \<open>
  C1: when the lookup of the document returns its vector and no term of the query is a
  key of that vector, each of the three \<^verbatim>\<open>score\<close> methods returns 0, whatever its
  parameters; nothing is raised. (The custom ranker also fetches the document's term
  positions before its loop.)
\<close>

theorem empty_intersection_scores_zero:
  assumes "fst (fetch_docvec r doc_id) = Inr (Some dv)"
    and "set query \<inter> fst ` set dv = {}"
  shows "fst (pln_score r query doc_id b) = Inr (Fin 0) \<and>
         fst (bm25_score r query doc_id k1 b' k3) = Inr (Fin 0) \<and>
         (\<not> isl (fst (fetch_positions (snd (fetch_docvec r doc_id)) doc_id)) \<longrightarrow>
            fst (custom_score r query doc_id lmd sm) = Inr (Fin 0))"
proof -
  obtain r1 where f: "fetch_docvec r doc_id = (Inr (Some dv), r1)"
    using assms(1) by (cases "fetch_docvec r doc_id") auto
  have e: "doc_query_set query dv = []"
    using assms(2) doc_query_set_set[of query dv] by simp
  have p: "fst (pln_score r query doc_id b) = Inr (Fin 0)"
    by (simp add: pln_score_def f e)
  have b: "fst (bm25_score r query doc_id k1 b' k3) = Inr (Fin 0)"
    by (simp add: bm25_score_def f e)
  have c: "\<not> isl (fst (fetch_positions r1 doc_id)) \<Longrightarrow>
      fst (custom_score r query doc_id lmd sm) = Inr (Fin 0)"
    by (cases "fetch_positions r1 doc_id") (auto simp: custom_score_def f e split: sum.splits)
  show ?thesis using p b c f by simp
qed

theorem empty_intersection_scores_zero_witness:
  "fst (score Plnr scenario_ranker [''cat''] ''A'') = Inr (Fin 0) \<and>
   fst (score Bm25 scenario_ranker [''cat''] ''A'') = Inr (Fin 0) \<and>
   fst (score Custom scenario_ranker [''cat''] ''A'') = Inr (Fin 0)"
proof -
  have h1: "fst (fetch_docvec scenario_ranker ''A'') = Inr (Some [(''fox'', 2), (''dog'', 1)])"
    by (simp add: fetch_docvec_def scenario_ranker_def scenario_reader_def)
  have h2: "set [''cat''] \<inter> fst ` set [(''fox'', 2::nat), (''dog'', 1)] = {}"
    by simp
  have h3: "\<not> isl (fst (fetch_positions (snd (fetch_docvec scenario_ranker ''A'')) ''A''))"
    by (simp add: fetch_docvec_def fetch_positions_def scenario_ranker_def scenario_reader_def)
  show ?thesis
    using empty_intersection_scores_zero[OF h1 h2] h3 by simp
qed


section \<open>Monotonicity of BM25 in the document term frequency\<close>

lemma bm25_frac_mono:
  fixes K a c :: real
  assumes "0 < K" "0 < a" "a < c"
  shows "a / (K + a) < c / (K + c)"
proof -
  have "a * (K + c) < c * (K + a)"
    using assms by (simp add: algebra_simps)
  then show ?thesis
    using assms by (simp add: divide_simps mult.commute)
qed

text \<open>
  C6: in BM25 with \<open>k1 > 0\<close>, \<open>0 \<le> b \<le> 1\<close>, \<open>k3 > 0\<close>, take two document vectors of
  the same length in which a query term has the positive frequencies \<open>tf1 < tf2\<close>, all
  else (document frequency, average document length, query) being the same. Then
  \<open>norm_tf\<close> is strictly larger for \<open>tf2\<close>, and whenever \<open>idf\<close> is positive so is the
  term's contribution.
\<close>

theorem bm25_norm_tf_strictly_increasing:
  assumes "0 < k1" and "0 \<le> b" and "b \<le> 1" and "0 < k3" and "0 < avgdl"
    and "map_of dv1 t = Some tf1" and "map_of dv2 t = Some tf2"
    and "doc_length dv1 = doc_length dv2"
    and "0 < tf1" and "tf1 < tf2"
    and "t \<in> set query"
  shows "\<exists>x1 x2. bm25_norm_tf avgdl k1 b (doc_length dv1) tf1 = Inr x1 \<and>
           bm25_norm_tf avgdl k1 b (doc_length dv2) tf2 = Inr x2 \<and> x1 < x2 \<and>
           (\<forall>i. bm25_idf ndocs df = Inr (Fin i) \<and> 0 < i \<longrightarrow>
              (\<exists>s1 s2. bm25_term_score ndocs avgdl k1 b k3 query dv1 t (df, cf) = Inr (Fin s1) \<and>
                 bm25_term_score ndocs avgdl k1 b k3 query dv2 t (df, cf) = Inr (Fin s2) \<and>
                 s1 < s2))"
proof -
  define dl where "dl = doc_length dv2"
  define K where "K = k1 * (1 - b + b * real dl / avgdl)"
  define x where "x tf = (k1 + 1) * real tf / (K + real tf)" for tf :: nat
  define nq where "nq = (k3 + 1) * real (count_list query t) / (k3 + real (count_list query t))"
  have dl1: "1 \<le> dl"
    unfolding dl_def using map_of_le_doc_length[OF assms(7)] assms(9,10) by linarith
  have K: "0 < K"
    unfolding K_def using length_norm_pos[OF assms(2,3,5) dl1] assms(1) by simp
  have a: "avgdl \<noteq> 0" using assms(5) by simp
  have n: "bm25_norm_tf avgdl k1 b dl tf = Inr (x tf)" if "0 < tf" for tf
    using K a that by (simp add: bm25_norm_tf_def py_div_def x_def K_def)
  have "real tf1 / (K + real tf1) < real tf2 / (K + real tf2)"
    using K assms(9,10) by (intro bm25_frac_mono) simp_all
  then have "(k1 + 1) * (real tf1 / (K + real tf1)) < (k1 + 1) * (real tf2 / (K + real tf2))"
    using assms(1) by (intro mult_strict_left_mono) simp_all
  then have lt: "x tf1 < x tf2"
    unfolding x_def by simp
  have qc: "0 < count_list query t"
    using assms(11) count_list_0_iff[of query t] by (cases "count_list query t") simp_all
  then have q: "bm25_norm_qtf k3 (count_list query t) = Inr nq" and nq: "0 < nq"
    using assms(4) by (simp_all add: bm25_norm_qtf_def py_div_def nq_def)
  have sc: "bm25_term_score ndocs avgdl k1 b k3 query dv t (df, cf) = Inr (Fin (i * x tf * nq))"
    if "map_of dv t = Some tf" "doc_length dv = dl" "0 < tf" "bm25_idf ndocs df = Inr (Fin i)"
    for dv tf i
    using that n[of tf] q by (simp add: bm25_term_score_def dict_get_def)
  have "i * x tf1 * nq < i * x tf2 * nq" if "0 < i" for i
    using that lt nq by simp
  then show ?thesis
    using n[of tf1] n[of tf2] lt assms(6,7,8,9,10) sc[of dv1 tf1] sc[of dv2 tf2]
    by (auto simp: dl_def)
qed


theorem bm25_norm_tf_strictly_increasing_witness:
  "\<exists>x1 x2 s1 s2.
     bm25_norm_tf 10 1.2 0.3 (doc_length [(''fox'', 1), (''dog'', 2)]) 1 = Inr x1 \<and>
     bm25_norm_tf 10 1.2 0.3 (doc_length [(''fox'', 2), (''dog'', 1)]) 2 = Inr x2 \<and> x1 < x2 \<and>
     bm25_term_score 3 10 1.2 0.3 1.5 [''fox''] [(''fox'', 1), (''dog'', 2)] ''fox'' (1, 1)
       = Inr (Fin s1) \<and>
     bm25_term_score 3 10 1.2 0.3 1.5 [''fox''] [(''fox'', 2), (''dog'', 1)] ''fox'' (1, 1)
       = Inr (Fin s2) \<and> s1 < s2"
proof -
  have i: "bm25_idf 3 1 = Inr (Fin (ln (5 / 3))) \<and> (0::real) < ln (5 / 3)"
    by (simp add: bm25_idf_def py_div_def)
  have h: "(0::real) < 1.2" "(0::real) \<le> 0.3" "(0.3::real) \<le> 1" "(0::real) < 1.5" "(0::real) < 10"
    "map_of [(''fox'', 1::nat), (''dog'', 2)] ''fox'' = Some 1"
    "map_of [(''fox'', 2::nat), (''dog'', 1)] ''fox'' = Some 2"
    "doc_length [(''fox'', 1), (''dog'', 2)] = doc_length [(''fox'', 2), (''dog'', 1)]"
    "(0::nat) < 1" "(1::nat) < 2" "''fox'' \<in> set [''fox'']"
    by (simp_all add: doc_length_def)
  show ?thesis
    using bm25_norm_tf_strictly_increasing[OF h, of 3 1 1] i by blast
qed



section \<open>Terms that occur once in the document\<close>

lemma np_add_zero_left: "np_add (Fin 0) x = x"
  by (cases x) simp_all

text \<open>
  C4 (as amended): a document term frequency of exactly 1 makes only the logarithm of
  the frequency vanish, not the contribution. In pivoted length normalisation
  \<open>ln (1 + ln 1) = 0\<close>, so \<open>norm_tf\<close> is \<open>1 / (1 - b + b * doc_length / avg_dl)\<close> and the
  contribution is \<open>qtf * norm_tf * idf\<close>, zero only when \<open>idf\<close> is. In the custom ranker
  the first summand \<open>lmd * ln tf / (qtf * trp_q * trp_d + sm)\<close> is 0 when its divisor is
  neither 0 nor \<^verbatim>\<open>nan\<close>, and the contribution is the second summand
  \<open>(1 - lmd) * (ci * idf + sm)\<close>.
\<close>

theorem singleton_tf_contribution:
  assumes "map_of dv t = Some 1"
  shows "(avgdl \<noteq> 0 \<and> df \<noteq> 0 \<and> 1 - b + b * real (doc_length dv) / avgdl \<noteq> 0 \<longrightarrow>
            pln_term_score ndocs avgdl b query dv t (df, cf) =
              Inr (Fin (real (count_list query t)
                          * (1 / (1 - b + b * real (doc_length dv) / avgdl))
                          * ln ((real ndocs + 1) / real df)))) \<and>
         (custom_trp_q query t = Inr q \<and> dict_get doc_positions t = Inr ps \<and>
          nterms \<noteq> 0 \<and> df \<noteq> 0 \<and>
          custom_denominator sm (count_list query t) q (custom_trp_d dv ps) \<noteq> NaN \<and>
          custom_denominator sm (count_list query t) q (custom_trp_d dv ps) \<noteq> Fin 0 \<longrightarrow>
            custom_tf_part sm 1 (count_list query t) q (custom_trp_d dv ps) = Fin 0 \<and>
            custom_term_score ndocs nterms lmd sm query dv doc_positions t (df, cf) =
              Inr (np_mul (Fin (1 - lmd))
                     (custom_collection_part sm (real cf / real nterms) (real ndocs / real df))))"
proof (intro conjI impI)
  assume a: "avgdl \<noteq> 0 \<and> df \<noteq> 0 \<and> 1 - b + b * real (doc_length dv) / avgdl \<noteq> 0"
  then have r: "0 < (real ndocs + 1) / real df" by simp
  show "pln_term_score ndocs avgdl b query dv t (df, cf) =
      Inr (Fin (real (count_list query t) * (1 / (1 - b + b * real (doc_length dv) / avgdl))
        * ln ((real ndocs + 1) / real df)))"
    using a r assms by (simp add: pln_term_score_def dict_get_def py_div_def Let_def)
next
  assume a: "custom_trp_q query t = Inr q \<and> dict_get doc_positions t = Inr ps \<and>
          nterms \<noteq> 0 \<and> df \<noteq> 0 \<and>
          custom_denominator sm (count_list query t) q (custom_trp_d dv ps) \<noteq> NaN \<and>
          custom_denominator sm (count_list query t) q (custom_trp_d dv ps) \<noteq> Fin 0"
  show tf: "custom_tf_part sm 1 (count_list query t) q (custom_trp_d dv ps) = Fin 0"
    using a
    by (cases "custom_denominator sm (count_list query t) q (custom_trp_d dv ps)")
       (simp_all add: custom_tf_part_def)
  show "custom_term_score ndocs nterms lmd sm query dv doc_positions t (df, cf) =
      Inr (np_mul (Fin (1 - lmd))
             (custom_collection_part sm (real cf / real nterms) (real ndocs / real df)))"
    using a assms tf
    by (simp add: custom_term_score_def dict_get_def py_div_def Let_def np_add_zero_left)
qed

lemma ln3_ln2_pos: "(0::real) < ln 3 / ln 2"
  by simp

theorem singleton_tf_contribution_witness:
  "pln_term_score 3 2 0.5 [''fox''] [(''x'', 1), (''fox'', 1)] ''fox'' (3, 4) =
     Inr (Fin (1 * (1 / (1 - 0.5 + 0.5 * 2 / 2)) * ln (4 / 3))) \<and>
   custom_term_score 3 6 0.6 0.2 [''fox''] [(''x'', 1), (''fox'', 1)]
       [(''x'', [0]), (''fox'', [1])] ''fox'' (3, 4) =
     Inr (np_mul (Fin (1 - 0.6)) (custom_collection_part 0.2 (4 / 6) (3 / 3)))"
proof -
  have h: "map_of [(''x'', 1::nat), (''fox'', 1)] ''fox'' = Some 1" by simp
  have q: "custom_trp_q [''fox''] ''fox'' = Inr 0"
    by (simp add: custom_trp_q_def query_position_def py_div_def)
  have d: "custom_denominator 0.2 (count_list [''fox''] ''fox'') 0
             (custom_trp_d [(''x'', 1), (''fox'', 1)] [1]) = Fin 0.2"
    using ln3_ln2_pos
    by (simp add: custom_denominator_def custom_trp_d_def doc_length_def np_mean_def)
  have p: "dict_get [(''x'', [0::nat]), (''fox'', [1])] ''fox'' = Inr [1]"
    by (simp add: dict_get_def)
  show ?thesis
    using singleton_tf_contribution[OF h, where avgdl = 2 and df = 3 and b = "0.5"
        and ndocs = 3 and query = "[''fox'']" and cf = 4 and q = 0
        and doc_positions = "[(''x'', [0]), (''fox'', [1])]" and ps = "[1]" and nterms = 6
        and sm = "0.2" and lmd = "0.6"] q d p
    by (simp add: doc_length_def)
qed

text \<open>
  In document \<open>d1\<close> of the three-document index the term \<open>fox\<close> occurs once; for the
  query \<open>fox\<close> its contribution is \<open>ln (4 / 3)\<close> in pivoted length normalisation and
  0.08 in the custom ranker.
\<close>

theorem singleton_tf_contribution_counterexample:
  "term_frequency [(''x'', 1), (''fox'', 1)] ''fox'' = 1 \<and>
   pln_term_score 3 2 0.5 [''fox''] [(''x'', 1), (''fox'', 1)] ''fox'' (3, 4) =
     Inr (Fin (ln (4 / 3))) \<and>
   Fin (ln (4 / 3)) \<noteq> Fin 0 \<and>
   custom_term_score 3 6 0.6 0.2 [''fox''] [(''x'', 1), (''fox'', 1)]
       [(''x'', [0]), (''fox'', [1])] ''fox'' (3, 4) = Inr (Fin 0.08) \<and>
   Fin 0.08 \<noteq> Fin 0"
proof -
  have a: "term_frequency [(''x'', 1), (''fox'', 1)] ''fox'' = 1"
    by (simp add: term_frequency_def)
  have b: "pln_term_score 3 2 0.5 [''fox''] [(''x'', 1), (''fox'', 1)] ''fox'' (3, 4) =
     Inr (Fin (ln (4 / 3)))"
    by (simp add: pln_term_score_def dict_get_def py_div_def doc_length_def)
  have q: "custom_trp_q [''fox''] ''fox'' = Inr 0"
    by (simp add: custom_trp_q_def query_position_def py_div_def)
  have d: "custom_tf_part 0.2 1 (count_list [''fox''] ''fox'') 0
             (custom_trp_d [(''x'', 1), (''fox'', 1)] [1]) = Fin 0"
    using ln3_ln2_pos
    by (simp add: custom_tf_part_def custom_denominator_def custom_trp_d_def doc_length_def
        np_mean_def)
  have c: "custom_term_score 3 6 0.6 0.2 [''fox''] [(''x'', 1), (''fox'', 1)]
       [(''x'', [0]), (''fox'', [1])] ''fox'' (3, 4) = Inr (Fin 0.08)"
    using d
    by (simp add: custom_term_score_def dict_get_def q py_div_def custom_collection_part_def)
  have e: "ln (4 / 3 :: real) \<noteq> 0" by simp
  show ?thesis using a b c e by simp
qed


section \<open>The query-position map\<close>

lemma query_position_snoc:
  "query_position (xs @ [x]) = (query_position xs)(x \<mapsto> length xs)"
  by (simp add: query_position_def enumerate_append_eq)

lemma query_position_last_index:
  "t \<in> set query \<Longrightarrow>
   \<exists>i. query_position query t = Some i \<and> i < length query \<and> query ! i = t \<and>
       (\<forall>j. j < length query \<and> query ! j = t \<longrightarrow> j \<le> i)"
proof (induction query rule: rev_induct)
  case Nil
  then show ?case by simp
next
  case (snoc x xs)
  show ?case
  proof (cases "t = x")
    case True
    then show ?thesis by (auto simp: query_position_snoc)
  next
    case False
    then have "t \<in> set xs" using snoc.prems by simp
    then obtain i where i: "query_position xs t = Some i" "i < length xs" "xs ! i = t"
      "\<forall>j. j < length xs \<and> xs ! j = t \<longrightarrow> j \<le> i"
      using snoc.IH by blast
    have "j \<le> i" if "j < length (xs @ [x])" "(xs @ [x]) ! j = t" for j
    proof -
      have "j \<noteq> length xs" using that(2) False by auto
      then have "j < length xs" using that(1) by simp
      then show ?thesis using that(2) i(4) by (simp add: nth_append)
    qed
    then show ?thesis
      using i False by (auto simp: query_position_snoc nth_append intro!: exI[of _ i])
  qed
qed

text \<open>
  C5 (as amended): the query-position map sends each term of the query to the index of
  its last occurrence in the query, and \<open>trp_q\<close> is that index divided by the length of
  the query (counted with repetition).
\<close>

theorem query_position_is_last_index:
  assumes "t \<in> set query"
  shows "\<exists>i. query_position query t = Some i \<and> i < length query \<and> query ! i = t \<and>
           (\<forall>j. j < length query \<and> query ! j = t \<longrightarrow> j \<le> i) \<and>
           custom_trp_q query t = Inr (real i / real (length query))"
proof -
  obtain i where i: "query_position query t = Some i" "i < length query" "query ! i = t"
      "\<forall>j. j < length query \<and> query ! j = t \<longrightarrow> j \<le> i"
    using query_position_last_index[OF assms] by blast
  have "custom_trp_q query t = Inr (real i / real (length query))"
    using i(1,2) by (auto simp: custom_trp_q_def py_div_def)
  then show ?thesis using i by blast
qed

theorem query_position_is_last_index_witness:
  "query_position [''a'', ''b'', ''a''] ''a'' = Some 2 \<and>
   custom_trp_q [''a'', ''b'', ''a''] ''a'' = Inr (2 / 3)"
proof -
  have h: "''a'' \<in> set [''a'', ''b'', ''a'']" by simp
  obtain i where i: "query_position [''a'', ''b'', ''a''] ''a'' = Some i"
      "\<forall>j. j < length [''a'', ''b'', ''a''] \<and> [''a'', ''b'', ''a''] ! j = ''a'' \<longrightarrow> j \<le> i"
      "i < length [''a'', ''b'', ''a'']"
      "custom_trp_q [''a'', ''b'', ''a''] ''a'' = Inr (real i / real (length [''a'', ''b'', ''a'']))"
    using query_position_is_last_index[OF h] by blast
  have "2 \<le> i" using i(2) by (auto dest: spec[of _ 2])
  then have "i = 2" using i(3) by simp
  then show ?thesis using i(1,4) by simp
qed

text \<open>
  In the query \<open>a b a\<close> the term \<open>a\<close> first occurs at index 0, but its position is 2.
\<close>

theorem query_position_first_index_counterexample:
  "spec_first_index [''a'', ''b'', ''a''] ''a'' = 0 \<and>
   query_position [''a'', ''b'', ''a''] ''a'' = Some 2 \<and>
   custom_trp_q [''a'', ''b'', ''a''] ''a'' = Inr (2 / 3) \<and>
   custom_trp_q [''a'', ''b'', ''a''] ''a'' \<noteq>
     Inr (real (spec_first_index [''a'', ''b'', ''a''] ''a'') / real (length [''a'', ''b'', ''a'']))"
  by (simp add: spec_first_index_def query_position_def custom_trp_q_def py_div_def)



section \<open>Evaluating a query: failures are absorbed\<close>

lemma rank_loop_keys:
  "fst ` set (fst (rank_loop sc q ds acc r)) = fst ` set acc \<union> set ds"
proof (induction ds arbitrary: acc r)
  case Nil
  show ?case by simp
next
  case (Cons d ds)
  show ?case
    by (cases "sc r q d") (auto simp: Cons.IH dom_update split: sum.splits)
qed

lemma rank_loop_distinct:
  "distinct (map fst acc) \<Longrightarrow> distinct (map fst (fst (rank_loop sc q ds acc r)))"
proof (induction ds arbitrary: acc r)
  case Nil
  then show ?case by simp
next
  case (Cons d ds)
  show ?case
    using Cons.prems
    by (cases "sc r q d") (auto simp: distinct_update intro!: Cons.IH split: sum.splits)
qed

lemma rank_loop_append:
  "rank_loop sc q (xs @ ys) acc r =
     rank_loop sc q ys (fst (rank_loop sc q xs acc r)) (snd (rank_loop sc q xs acc r))"
proof (induction xs arbitrary: acc r)
  case Nil
  show ?case by simp
next
  case (Cons d ds)
  show ?case
    by (cases "sc r q d") (auto simp: Cons.IH split: sum.splits)
qed

lemma rank_loop_map_of_other:
  "d \<notin> set ds \<Longrightarrow> map_of (fst (rank_loop sc q ds acc r)) d = map_of acc d"
proof (induction ds arbitrary: acc r)
  case Nil
  show ?case by simp
next
  case (Cons x ds)
  then have "d \<noteq> x" "d \<notin> set ds" by auto
  then show ?case
    by (cases "sc r q x") (auto simp: Cons.IH update_conv' split: sum.splits)
qed

text \<open>
  C7: \<^verbatim>\<open>rank_query\<close> returns a dictionary and never an exception. Its keys are the
  candidate document ids, each once. The entry of a candidate is decided by the last
  scoring call for it, made on the ranker as the calls before it left it: the score when
  the call returned, and 0 when it raised, whatever was raised; the candidates after it
  are scored all the same.
\<close>

theorem rank_query_absorbs_failures:
  "distinct (map fst (fst (rank_query sc r query doc_list))) \<and>
   set (map fst (fst (rank_query sc r query doc_list))) = set doc_list \<and>
   (\<forall>ds1 d ds2. doc_list = ds1 @ d # ds2 \<and> d \<notin> set ds2 \<longrightarrow>
      map_of (fst (rank_query sc r query doc_list)) d =
        Some (case fst (sc (snd (rank_query sc r query ds1)) query d) of
                Inl e \<Rightarrow> Fin 0 | Inr s \<Rightarrow> s))"
proof (intro conjI allI impI)
  show "distinct (map fst (fst (rank_query sc r query doc_list)))"
    unfolding rank_query_def by (rule rank_loop_distinct) simp
  show "set (map fst (fst (rank_query sc r query doc_list))) = set doc_list"
    unfolding rank_query_def using rank_loop_keys[of sc query doc_list "[]" r] by simp
next
  fix ds1 d ds2
  assume a: "doc_list = ds1 @ d # ds2 \<and> d \<notin> set ds2"
  define acc1 where "acc1 = fst (rank_loop sc query ds1 [] r)"
  define r1 where "r1 = snd (rank_loop sc query ds1 [] r)"
  obtain res r2 where s: "sc r1 query d = (res, r2)" by (cases "sc r1 query d")
  define v where "v = (case res of Inl e \<Rightarrow> Fin 0 | Inr s \<Rightarrow> s)"
  have step: "rank_loop sc query (d # ds2) acc1 r1 =
      rank_loop sc query ds2 (AList.update d v acc1) r2"
    using s by (cases res) (simp_all add: v_def)
  have "map_of (fst (rank_loop sc query doc_list [] r)) d =
      map_of (fst (rank_loop sc query ds2 (AList.update d v acc1) r2)) d"
    using a step by (simp add: rank_loop_append acc1_def r1_def)
  also have "\<dots> = map_of (AList.update d v acc1) d"
    using a by (simp add: rank_loop_map_of_other)
  also have "\<dots> = Some v" by (simp add: update_conv')
  finally show "map_of (fst (rank_query sc r query doc_list)) d =
      Some (case fst (sc (snd (rank_query sc r query ds1)) query d) of
              Inl e \<Rightarrow> Fin 0 | Inr s \<Rightarrow> s)"
    using s by (simp add: rank_query_def v_def r1_def)
qed

theorem rank_query_absorbs_failures_witness:
  "fst (score Bm25 scenario_ranker [''fox''] ''B'') = Inl AttributeError \<and>
   map_of (fst (rank_query (score Bm25) scenario_ranker [''fox''] [''B'', ''A''])) ''B''
     = Some (Fin 0) \<and>
   set (map fst (fst (rank_query (score Bm25) scenario_ranker [''fox''] [''B'', ''A''])))
     = {''A'', ''B''}"
proof -
  have f: "fst (score Bm25 scenario_ranker [''fox''] ''B'') = Inl AttributeError"
    by (simp add: bm25_score_def fetch_docvec_def scenario_ranker_def scenario_reader_def)
  have e: "snd (rank_query (score Bm25) scenario_ranker [''fox''] []) = scenario_ranker"
    by (simp add: rank_query_def)
  have h: "[''B'', ''A''] = [] @ ''B'' # [''A''] \<and> ''B'' \<notin> set [''A'']" by simp
  have t: "map_of (fst (rank_query (score Bm25) scenario_ranker [''fox''] [''B'', ''A''])) ''B'' =
      Some (case fst (score Bm25 (snd (rank_query (score Bm25) scenario_ranker [''fox''] []))
                        [''fox''] ''B'') of Inl e \<Rightarrow> Fin 0 | Inr s \<Rightarrow> s)"
    using rank_query_absorbs_failures[of "score Bm25" scenario_ranker "[''fox'']" "[''B'', ''A'']"] h
    by blast
  have k: "set (map fst (fst (rank_query (score Bm25) scenario_ranker [''fox''] [''B'', ''A''])))
      = set [''B'', ''A'']"
    using rank_query_absorbs_failures[of "score Bm25" scenario_ranker "[''fox'']" "[''B'', ''A'']"]
    by blast
  show ?thesis using f t k unfolding e by (simp add: insert_commute)
qed


section \<open>The document-vector cache\<close>

lemma fetch_positions_frame:
  "index_reader (snd (fetch_positions r d)) = index_reader r \<and>
   docvec_cache (snd (fetch_positions r d)) = docvec_cache r \<and>
   docvec_calls (snd (fetch_positions r d)) = docvec_calls r"
  by (auto simp: fetch_positions_def split: option.splits sum.splits)

lemma term_loop_docvec_fields:
  "index_reader (snd (term_loop f ts acc r)) = index_reader r \<and>
   docvec_cache (snd (term_loop f ts acc r)) = docvec_cache r \<and>
   docvec_calls (snd (term_loop f ts acc r)) = docvec_calls r"
proof -
  obtain fc where "snd (term_loop f ts acc r) = r\<lparr>freq_cache := fc\<rparr>"
    using term_loop_frame by blast
  then show ?thesis by simp
qed

lemma loop_after_fetch_docvec:
  "index_reader (snd (case fetch_docvec r d of
       (Inl e, r') \<Rightarrow> (Inl e, r')
     | (Inr None, r') \<Rightarrow> (Inl AttributeError, r')
     | (Inr (Some dv), r') \<Rightarrow> term_loop (f dv r') (ts dv) acc r'))
     = index_reader r \<and>
   docvec_cache (snd (case fetch_docvec r d of
       (Inl e, r') \<Rightarrow> (Inl e, r')
     | (Inr None, r') \<Rightarrow> (Inl AttributeError, r')
     | (Inr (Some dv), r') \<Rightarrow> term_loop (f dv r') (ts dv) acc r'))
     = docvec_cache (snd (fetch_docvec r d)) \<and>
   docvec_calls (snd (case fetch_docvec r d of
       (Inl e, r') \<Rightarrow> (Inl e, r')
     | (Inr None, r') \<Rightarrow> (Inl AttributeError, r')
     | (Inr (Some dv), r') \<Rightarrow> term_loop (f dv r') (ts dv) acc r'))
     = docvec_calls (snd (fetch_docvec r d))"
proof (cases "fetch_docvec r d")
  case (Pair res r1)
  have i: "index_reader r1 = index_reader r"
    using fetch_docvec_frame[of r d] Pair by simp
  show ?thesis
  proof (cases res)
    case (Inl e)
    then show ?thesis using Pair i by simp
  next
    case (Inr dvo)
    then show ?thesis
      using Pair i by (cases dvo) (simp_all add: term_loop_docvec_fields)
  qed
qed

lemma score_docvec_fields:
  "index_reader (snd (score opt r q d)) = index_reader r \<and>
   docvec_cache (snd (score opt r q d)) = docvec_cache (snd (fetch_docvec r d)) \<and>
   docvec_calls (snd (score opt r q d)) = docvec_calls (snd (fetch_docvec r d))"
proof (cases opt)
  case Plnr
  show ?thesis
    unfolding Plnr score.simps pln_score_def
    by (rule loop_after_fetch_docvec[where f = "\<lambda>dv r'. pln_term_score (n_docs r') (avg_dl r') pln_default_b q dv"
          and ts = "doc_query_set q"])
next
  case Bm25
  show ?thesis
    unfolding Bm25 score.simps bm25_score_def
    by (rule loop_after_fetch_docvec[where f = "\<lambda>dv r'. bm25_term_score (n_docs r') (avg_dl r')
            bm25_default_k1 bm25_default_b bm25_default_k3 q dv"
          and ts = "doc_query_set q"])
next
  case Custom
  obtain res r1 where f: "fetch_docvec r d = (res, r1)" by (cases "fetch_docvec r d")
  have i: "index_reader r1 = index_reader r"
    using fetch_docvec_frame[of r d] f by simp
  show ?thesis
  proof (cases res)
    case (Inl e)
    then show ?thesis using f i by (simp add: Custom custom_score_def)
  next
    case (Inr dvo)
    obtain res2 r2 where p: "fetch_positions r1 d = (res2, r2)" by (cases "fetch_positions r1 d")
    have r2: "index_reader r2 = index_reader r1 \<and> docvec_cache r2 = docvec_cache r1 \<and>
        docvec_calls r2 = docvec_calls r1"
      using fetch_positions_frame[of r1 d] p by simp
    show ?thesis
      using f Inr p r2 i
      by (cases res2; cases dvo) (simp_all add: Custom custom_score_def term_loop_docvec_fields)
  qed
qed





lemma score_calls_index_reader:
  "index_reader (score_calls opt r calls) = index_reader r"
  by (induction calls arbitrary: r) (auto simp: score_docvec_fields)







section \<open>The order of the query terms\<close>

lemma term_loop_perm:
  assumes "mset ts' = mset ts"
  shows "fst (term_loop f ts' acc r) = Inr v \<longleftrightarrow> fst (term_loop f ts acc r) = Inr v"
proof -
  have s: "set ts' = set ts" using assms by (rule mset_eq_setD)
  have "mset (map (\<lambda>t. projr (term_value f r t)) ts') =
      mset (map (\<lambda>t. projr (term_value f r t)) ts)"
    using assms by simp
  then have "sum_list (map (\<lambda>t. projr (term_value f r t)) ts') =
      sum_list (map (\<lambda>t. projr (term_value f r t)) ts)"
    by (metis sum_mset_sum_list)
  then show ?thesis by (simp add: term_loop_Inr_iff s)
qed

lemma doc_query_set_perm:
  assumes "mset query' = mset query"
  shows "mset (doc_query_set query' dv) = mset (doc_query_set query dv)"
proof -
  have "set query' = set query" using assms by (rule mset_eq_setD)
  then have "set (doc_query_set query' dv) = set (doc_query_set query dv)"
    by (simp add: doc_query_set_set)
  then show ?thesis
    using doc_query_set_distinct set_eq_iff_mset_eq_distinct by blast
qed

lemma count_list_perm:
  "mset query' = mset query \<Longrightarrow> count_list query' t = count_list query t"
  by (metis count_mset)

text \<open>
  C10: for a permutation \<open>query'\<close> of \<open>query\<close>, the pivoted-length-normalisation score
  and the BM25 score of a document, computed on the same ranker, return a value for
  \<open>query'\<close> exactly when they return it for \<open>query\<close>: the same score, or an exception in
  both cases.
\<close>

theorem score_permutation_invariant:
  assumes "mset query' = mset query"
  shows "(fst (pln_score r query' doc_id b) = Inr v \<longleftrightarrow>
            fst (pln_score r query doc_id b) = Inr v) \<and>
         (fst (bm25_score r query' doc_id k1 b' k3) = Inr w \<longleftrightarrow>
            fst (bm25_score r query doc_id k1 b' k3) = Inr w)"
proof -
  obtain res r1 where f: "fetch_docvec r doc_id = (res, r1)" by (cases "fetch_docvec r doc_id")
  have pf: "pln_term_score n a b query' dv = pln_term_score n a b query dv" for n a dv
    by (intro ext) (simp add: pln_term_score_def count_list_perm[OF assms])
  have bf: "bm25_term_score n a k1 b' k3 query' dv = bm25_term_score n a k1 b' k3 query dv"
    for n a dv
    by (intro ext) (simp add: bm25_term_score_def count_list_perm[OF assms])
  show ?thesis
  proof (cases res)
    case (Inl e)
    then show ?thesis by (simp add: pln_score_def bm25_score_def f)
  next
    case (Inr dvo)
    show ?thesis
    proof (cases dvo)
      case None
      then show ?thesis by (simp add: pln_score_def bm25_score_def f Inr)
    next
      case (Some dv)
      have m: "mset (doc_query_set query' dv) = mset (doc_query_set query dv)"
        using assms by (rule doc_query_set_perm)
      show ?thesis
        using term_loop_perm[OF m] by (simp add: pln_score_def bm25_score_def f Inr Some pf bf)
    qed
  qed
qed

lemma ln_arg_pos: "(0::real) < 1 + ln 2"
proof -
  have "(0::real) < ln 2" by simp
  then show ?thesis by linarith
qed

lemma scenario_pln_value:
  "fst (pln_score scenario_ranker [''fox'', ''fox'', ''cat''] ''A'' 0.5) =
     Inr (Fin (2 * ((1 + ln (1 + ln 2)) / (1 - 0.5 + 0.5 * 3 / 10)) * ln (4 / 2)))"
  using ln_arg_pos
  by (simp add: pln_score_def fetch_docvec_def scenario_ranker_def scenario_reader_def
      doc_query_set_def fetch_term_counts_def pln_term_score_def dict_get_def py_div_def
      doc_length_def)

lemma scenario_bm25_value:
  "fst (bm25_score scenario_ranker [''fox'', ''fox'', ''cat''] ''A'' 1.2 0.3 1.5) =
     Inr (Fin (ln (1.5 / 2.5) * (2.2 * 2 / (1.2 * (1 - 0.3 + 0.3 * 3 / 10) + 2))
                 * (2.5 * 2 / (1.5 + 2))))"
  by (simp add: bm25_score_def fetch_docvec_def scenario_ranker_def scenario_reader_def
      doc_query_set_def fetch_term_counts_def bm25_term_score_def bm25_idf_def bm25_norm_tf_def
      bm25_norm_qtf_def dict_get_def py_div_def doc_length_def)

theorem score_permutation_invariant_witness:
  "fst (pln_score scenario_ranker [''cat'', ''fox'', ''fox''] ''A'' 0.5) =
     fst (pln_score scenario_ranker [''fox'', ''fox'', ''cat''] ''A'' 0.5) \<and>
   fst (bm25_score scenario_ranker [''fox'', ''cat'', ''fox''] ''A'' 1.2 0.3 1.5) =
     fst (bm25_score scenario_ranker [''fox'', ''fox'', ''cat''] ''A'' 1.2 0.3 1.5)"
proof -
  have h1: "mset [''cat'', ''fox'', ''fox''] = mset [''fox'', ''fox'', ''cat'']" by simp
  have h2: "mset [''fox'', ''cat'', ''fox''] = mset [''fox'', ''fox'', ''cat'']" by simp
  show ?thesis
    using score_permutation_invariant[OF h1, of scenario_ranker "''A''" "0.5"]
      score_permutation_invariant[OF h2, of scenario_ranker "''A''" _ _ "1.2" "0.3" "1.5"]
      scenario_pln_value scenario_bm25_value
    by simp
qed



section \<open>The ranked list\<close>

lemma np_less_total:
  "a \<noteq> NaN \<Longrightarrow> b \<noteq> NaN \<Longrightarrow> \<not> np_less a b \<Longrightarrow> \<not> np_less b a \<Longrightarrow> a = b"
  by (cases a; cases b) simp_all

lemma np_less_trans: "np_less a b \<Longrightarrow> np_less b c \<Longrightarrow> np_less a c"
  by (cases a; cases b; cases c) simp_all

lemma np_not_less_trans:
  "b \<noteq> NaN \<Longrightarrow> \<not> np_less b a \<Longrightarrow> \<not> np_less c b \<Longrightarrow> \<not> np_less c a"
  by (cases a; cases b; cases c) simp_all

lemma np_less_not_sym: "np_less a b \<Longrightarrow> \<not> np_less b a"
  by (cases a; cases b) simp_all

lemma mset_insert_asc: "mset (insert_asc key x ys) = add_mset x (mset ys)"
  by (induction ys) simp_all

lemma mset_sort_asc: "mset (sort_asc key xs) = mset xs"
  unfolding sort_asc_def by (induction xs) (simp_all add: mset_insert_asc)

lemma set_insert_asc: "set (insert_asc key x ys) = insert x (set ys)"
  using mset_insert_asc[of key x ys] by (metis set_mset_add_mset_insert set_mset_mset)

lemma sorted_insert_asc:
  assumes "\<forall>y\<in>set ys. key y \<noteq> NaN" "key x \<noteq> NaN"
    and "sorted_wrt (\<lambda>a b. \<not> np_less (key b) (key a)) ys"
  shows "sorted_wrt (\<lambda>a b. \<not> np_less (key b) (key a)) (insert_asc key x ys)"
  using assms
proof (induction ys)
  case Nil
  then show ?case by simp
next
  case (Cons y ys)
  show ?case
  proof (cases "np_less (key y) (key x)")
    case True
    have "\<not> np_less (key z) (key y)" if "z \<in> set (insert_asc key x ys)" for z
      using that True Cons.prems(3) by (auto simp: set_insert_asc dest: np_less_not_sym)
    then show ?thesis
      using True Cons by simp
  next
    case False
    have "\<not> np_less (key z) (key x)" if "z \<in> set ys" for z
    proof -
      have "\<not> np_less (key z) (key y)" using that Cons.prems(3) by simp
      then show ?thesis
        using np_not_less_trans[of "key y" "key x" "key z"] False Cons.prems(1) by simp
    qed
    then show ?thesis using False Cons.prems(3) by auto
  qed
qed

lemma sorted_sort_asc:
  assumes "\<forall>x\<in>set xs. key x \<noteq> NaN"
  shows "sorted_wrt (\<lambda>a b. \<not> np_less (key b) (key a)) (sort_asc key xs)"
  using assms
proof (induction xs)
  case Nil
  show ?case by (simp add: sort_asc_def)
next
  case (Cons x xs)
  have s: "sort_asc key (x # xs) = insert_asc key x (sort_asc key xs)"
    by (simp add: sort_asc_def)
  have k: "\<forall>y\<in>set (sort_asc key xs). key y \<noteq> NaN"
    using Cons.prems mset_sort_asc[of key xs] by (metis list.set_intros(2) set_mset_mset)
  show ?case
    unfolding s using k Cons by (intro sorted_insert_asc) simp_all
qed

lemma filter_insert_asc:
  assumes "\<forall>y\<in>set ys. key y \<noteq> NaN" "key x \<noteq> NaN"
    and "sorted_wrt (\<lambda>a b. \<not> np_less (key b) (key a)) ys"
  shows "filter (\<lambda>y. key y = k) (insert_asc key x ys) =
           (if key x = k then x # filter (\<lambda>y. key y = k) ys else filter (\<lambda>y. key y = k) ys)"
  using assms
proof (induction ys)
  case Nil
  show ?case by simp
next
  case (Cons y ys)
  show ?case
  proof (cases "np_less (key y) (key x)")
    case True
    then have "key y \<noteq> key x" using np_less_not_sym[of "key x" "key x"] by auto
    then show ?thesis using True Cons by auto
  next
    case False
    then show ?thesis by simp
  qed
qed

lemma filter_sort_asc:
  assumes "\<forall>x\<in>set xs. key x \<noteq> NaN"
  shows "filter (\<lambda>y. key y = k) (sort_asc key xs) = filter (\<lambda>y. key y = k) xs"
  using assms
proof (induction xs)
  case Nil
  show ?case by (simp add: sort_asc_def)
next
  case (Cons x xs)
  have s: "sort_asc key (x # xs) = insert_asc key x (sort_asc key xs)"
    by (simp add: sort_asc_def)
  have k: "\<forall>y\<in>set (sort_asc key xs). key y \<noteq> NaN"
    using Cons.prems mset_sort_asc[of key xs] by (metis list.set_intros(2) set_mset_mset)
  have "sorted_wrt (\<lambda>a b. \<not> np_less (key b) (key a)) (sort_asc key xs)"
    using Cons.prems by (intro sorted_sort_asc) simp
  then show ?case
    unfolding s using k Cons by (simp add: filter_insert_asc)
qed

text \<open>
  A list in which no key is less than the key before it is left as it is, whatever
  keys are \<^verbatim>\<open>nan\<close>.
\<close>

lemma sort_asc_run:
  "successively (\<lambda>a b. \<not> np_less (key b) (key a)) xs \<Longrightarrow> sort_asc key xs = xs"
proof (induction xs)
  case Nil
  show ?case by (simp add: sort_asc_def)
next
  case (Cons x xs)
  have s: "sort_asc key (x # xs) = insert_asc key x (sort_asc key xs)"
    by (simp add: sort_asc_def)
  show ?case
  proof (cases xs)
    case Nil
    then show ?thesis by (simp add: sort_asc_def)
  next
    case (Cons y ys)
    then have "\<not> np_less (key y) (key x)" and "successively (\<lambda>a b. \<not> np_less (key b) (key a)) xs"
      using Cons.prems by simp_all
    then show ?thesis
      unfolding s using Cons.IH Cons by simp
  qed
qed

text \<open>
  On scores without \<^verbatim>\<open>nan\<close> the ranking is a stable descending sort of the candidates.
\<close>

lemma sorted_reverse_without_nan:
  assumes "\<forall>x\<in>set xs. key x \<noteq> NaN"
  shows "mset (sorted_reverse key xs) = mset xs"
    and "sorted_wrt (\<lambda>a b. \<not> np_less (key a) (key b)) (sorted_reverse key xs)"
    and "filter (\<lambda>y. key y = k) (sorted_reverse key xs) = filter (\<lambda>y. key y = k) xs"
proof -
  have n: "\<forall>x\<in>set (rev xs). key x \<noteq> NaN" using assms by simp
  show "mset (sorted_reverse key xs) = mset xs"
    by (simp add: sorted_reverse_def mset_sort_asc)
  show "sorted_wrt (\<lambda>a b. \<not> np_less (key a) (key b)) (sorted_reverse key xs)"
    using sorted_sort_asc[OF n] by (simp add: sorted_reverse_def sorted_wrt_rev)
  show "filter (\<lambda>y. key y = k) (sorted_reverse key xs) = filter (\<lambda>y. key y = k) xs"
    using filter_sort_asc[OF n, of k]
    by (simp add: sorted_reverse_def rev_filter[symmetric])
qed


lemma ln_facts:
  "(0::real) < ln 2" "(0::real) < ln 3" "(0::real) < ln 4" "(0::real) < ln (5 / 2)"
  "(0::real) < ln 3 / ln 2" "(0::real) < ln 4 / ln (5 / 2)"
  by simp_all

lemma fox_trp_q: "custom_trp_q [''fox''] ''fox'' = Inr 0"
  by (simp add: custom_trp_q_def query_position_def py_div_def)

lemma fox_d1_term:
  "custom_term_score 3 6 custom_default_lmd custom_default_sm [''fox''] [(''x'', 1), (''fox'', 1)]
     [(''x'', [0]), (''fox'', [1])] ''fox'' (3, 4) = Inr (Fin 0.08)"
  using ln_facts
  by (simp add: custom_default_lmd_def custom_default_sm_def
      custom_term_score_def dict_get_def fox_trp_q py_div_def
      custom_collection_part_def custom_tf_part_def custom_denominator_def custom_trp_d_def
      doc_length_def np_mean_def)

lemma fox_d2_term:
  "custom_term_score 3 6 custom_default_lmd custom_default_sm [''fox''] [(''fox'', 1)] [(''fox'', [0])] ''fox'' (3, 4) = Inr NaN"
  using ln_facts
  by (simp add: custom_default_lmd_def custom_default_sm_def
      custom_term_score_def dict_get_def fox_trp_q py_div_def
      custom_collection_part_def custom_tf_part_def custom_denominator_def custom_trp_d_def
      doc_length_def np_mean_def signed_inf_def)

lemma fox_d3_term:
  "custom_term_score 3 6 custom_default_lmd custom_default_sm [''fox''] [(''x'', 1), (''fox'', 2)]
     [(''x'', [0]), (''fox'', [1, 2])] ''fox'' (3, 4) = Inr (Fin (3 * ln 2 + 0.08))"
  using ln_facts
  by (simp add: custom_default_lmd_def custom_default_sm_def
      custom_term_score_def dict_get_def fox_trp_q py_div_def
      custom_collection_part_def custom_tf_part_def custom_denominator_def custom_trp_d_def
      doc_length_def np_mean_def)

lemma fox_doc_score:
  "fst (rank_query (score Custom) fox_ranker [''fox''] [''d1'', ''d2'', ''d3'']) =
     [(''d1'', Fin 0.08), (''d2'', NaN), (''d3'', Fin (3 * ln 2 + 0.08))]"
  by (simp add: rank_query_def custom_score_def fetch_docvec_def fetch_positions_def
      fetch_term_counts_def fox_ranker_def fox_reader_def doc_query_set_def
      fox_d1_term fox_d2_term fox_d3_term del: One_nat_def)

text \<open>
  C8: the ranked list is meant to be in non-increasing order of score. With the custom
  ranker and the query \<open>fox\<close> on the three-document index, the score of \<open>d2\<close> is
  \<^verbatim>\<open>nan\<close>: \<open>fox\<close> stands at index 0 of the query (\<open>trp_q = 0\<close>) and only at position 0
  of \<open>d2\<close> (\<open>trp_d = inf\<close>), and \<^verbatim>\<open>0 * inf\<close> is \<^verbatim>\<open>nan\<close>. No comparison with \<^verbatim>\<open>nan\<close>
  holds, so the sort leaves the candidates as they came: \<open>d1\<close> with score 0.08 is ranked
  before \<open>d3\<close> with score \<open>3 * ln 2 + 0.08\<close>.
\<close>

theorem ranked_list_nan_misorder:
  "fst (rank_query (score Custom) fox_ranker [''fox''] [''d1'', ''d2'', ''d3'']) =
     [(''d1'', Fin 0.08), (''d2'', NaN), (''d3'', Fin (3 * ln 2 + 0.08))] \<and>
   doc_ranked (fst (rank_query (score Custom) fox_ranker [''fox''] [''d1'', ''d2'', ''d3'']))
     = [''d1'', ''d2'', ''d3''] \<and>
   np_less (Fin 0.08) (Fin (3 * ln 2 + 0.08))"
  using ln_facts(1)
  by (simp add: fox_doc_score doc_ranked_def sorted_reverse_def sort_asc_def)


end
